theory Spec2Isabelle
  imports Main "HOL-Library.Char_ord" "HOL-Library.List_Lexorder"
begin

section \<open>Python values the splitter's driver relies on\<close>

text \<open>
  The driver \<^verbatim>\<open>split.py\<close> is a Python 3 script. Its strings are modelled as
  \<^typ>\<open>string\<close>, a character standing for the code point of its number (so the strings of
  the model are the Python strings of code points below 256), its integers as \<^typ>\<open>int\<close>,
  its dictionaries keyed by address as maps, its sets as HOL sets. Every exception that can leave a function is a
  value of \<open>error\<close>; a function that can raise returns \<open>error + 'a\<close>.
\<close>

datatype error =
    IndexError
  | ValueError
  | KeyError
  | AttributeError
  | ModuleNotFoundError
  | ConfigurationError
  | ValidationError
  | SystemExit int

text \<open>
  \<open>ConfigurationError\<close> and \<open>ValidationError\<close> stand for whatever exception the code of the
  segment kinds raises on a malformed entry and in \<^verbatim>\<open>check\<close>. An uncaught exception ends the
  interpreter with status 1, \<^verbatim>\<open>exit(n)\<close> with \<open>n\<close>.
\<close>

fun exit_status :: "error \<Rightarrow> int" where
  "exit_status (SystemExit n) = n"
| "exit_status e = 1"

definition bind_err :: "'e + 'a \<Rightarrow> ('a \<Rightarrow> 'e + 'b) \<Rightarrow> 'e + 'b" where
  "bind_err r f = (case r of Inl e \<Rightarrow> Inl e | Inr x \<Rightarrow> f x)"

text \<open>A \<^verbatim>\<open>for\<close> loop whose body can raise: the first exception leaves the loop.\<close>

fun for_each :: "('a \<Rightarrow> 's \<Rightarrow> 'e + 's) \<Rightarrow> 'a list \<Rightarrow> 's \<Rightarrow> 'e + 's" where
  "for_each body [] s = Inr s"
| "for_each body (x # xs) s =
     (case body x s of Inl e \<Rightarrow> Inl e | Inr s' \<Rightarrow> for_each body xs s')"

subsection \<open>String methods\<close>

text \<open>
  \<^verbatim>\<open>str.isspace\<close> on one character: tab, LF, VT, FF, CR, FS, GS, RS, US, space, and of the
  code points from 128 on, NEL (U+0085) and the no-break space (U+00A0).
\<close>

definition py_isspace :: "char \<Rightarrow> bool" where
  "py_isspace c =
     (let n = (of_char c :: nat)
      in (9 \<le> n \<and> n \<le> 13) \<or> (28 \<le> n \<and> n \<le> 32) \<or> n = 133 \<or> n = 160)"

definition py_lstrip :: "string \<Rightarrow> string" where
  "py_lstrip s = dropWhile py_isspace s"

definition py_rstrip :: "string \<Rightarrow> string" where
  "py_rstrip s = rev (dropWhile py_isspace (rev s))"

text \<open>\<^verbatim>\<open>s.strip()\<close>\<close>

definition py_strip :: "string \<Rightarrow> string" where
  "py_strip s = py_rstrip (py_lstrip s)"

text \<open>\<^verbatim>\<open>s.startswith(p)\<close>\<close>

definition py_startswith :: "string \<Rightarrow> string \<Rightarrow> bool" where
  "py_startswith s p = (take (length p) s = p)"

text \<open>\<^verbatim>\<open>s.split(sep)\<close> for a separator of one character: never an empty list.\<close>

fun py_split :: "char \<Rightarrow> string \<Rightarrow> string list" where
  "py_split sep [] = [[]]"
| "py_split sep (c # cs) =
     (if c = sep then [] # py_split sep cs
      else (case py_split sep cs of
              [] \<Rightarrow> [[c]]
            | w # ws \<Rightarrow> (c # w) # ws))"

text \<open>\<^verbatim>\<open>s.find(c)\<close>: the first offset of the character, or -1.\<close>

fun py_find :: "char \<Rightarrow> string \<Rightarrow> int" where
  "py_find c [] = -1"
| "py_find c (x # xs) =
     (if x = c then 0 else (let r = py_find c xs in if r < 0 then -1 else r + 1))"

text \<open>\<^verbatim>\<open>s[:k]\<close>: a negative bound counts from the end.\<close>

definition py_slice_to :: "'a list \<Rightarrow> int \<Rightarrow> 'a list" where
  "py_slice_to s k = (if 0 \<le> k then take (nat k) s else take (nat (int (length s) + k)) s)"

text \<open>\<^verbatim>\<open>xs[i]\<close> for \<open>i \<ge> 0\<close>: IndexError out of range.\<close>

definition py_index :: "'a list \<Rightarrow> nat \<Rightarrow> error + 'a" where
  "py_index xs i = (if i < length xs then Inr (xs ! i) else Inl IndexError)"

text \<open>\<^verbatim>\<open>xs[-1]\<close>\<close>

definition py_last :: "'a list \<Rightarrow> error + 'a" where
  "py_last xs = (if xs = [] then Inl IndexError else Inr (last xs))"

text \<open>
  \<^verbatim>\<open>s.upper()\<close>, character by character: the letters \<^verbatim>\<open>a\<close> to \<^verbatim>\<open>z\<close> and the letters
  U+00E0 to U+00FE (U+00F7 is the division sign) have their capital 32 code points below.
  The capitals of U+00B5, U+00DF and U+00FF are no single code point below 256 and have
  no counterpart in the model, which leaves these three as they are; what is proved of
  \<^verbatim>\<open>upper\<close> is proved of ASCII text.
\<close>

definition py_upper_char :: "char \<Rightarrow> char" where
  "py_upper_char c =
     (let n = (of_char c :: nat)
      in if (97 \<le> n \<and> n \<le> 122) \<or> (224 \<le> n \<and> n \<le> 254 \<and> n \<noteq> 247)
         then char_of (n - 32) else c)"

definition py_upper :: "string \<Rightarrow> string" where
  "py_upper s = map py_upper_char s"

subsection \<open>\<^verbatim>\<open>int(s, 0)\<close>\<close>

definition digit_val :: "char \<Rightarrow> nat option" where
  "digit_val c =
     (let n = (of_char c :: nat) in
      if 48 \<le> n \<and> n \<le> 57 then Some (n - 48)
      else if 97 \<le> n \<and> n \<le> 122 then Some (n - 87)
      else if 65 \<le> n \<and> n \<le> 90 then Some (n - 55)
      else None)"

text \<open>
  Digits of base \<open>b\<close>, most significant first, with single underscores allowed after a
  digit (\<open>prev\<close>) and never at the end.
\<close>

fun py_digits :: "nat \<Rightarrow> nat \<Rightarrow> bool \<Rightarrow> string \<Rightarrow> nat option" where
  "py_digits b acc prev [] = (if prev then Some acc else None)"
| "py_digits b acc prev (c # cs) =
     (if c = CHR ''_'' then (if prev then py_digits b acc False cs else None)
      else (case digit_val c of
              None \<Rightarrow> None
            | Some d \<Rightarrow> if d < b then py_digits b (acc * b + d) True cs else None))"

text \<open>After a base prefix an underscore may come first, but some digit must follow.\<close>

definition py_prefixed :: "nat \<Rightarrow> string \<Rightarrow> nat option" where
  "py_prefixed b s = (if s = [] then None else py_digits b 0 True s)"

text \<open>
  Without a prefix the literal is decimal, and a leading zero is allowed for zero only. A
  decimal literal of more than 4300 digits, underscores not counted, is refused (the
  default of \<^verbatim>\<open>sys.set_int_max_str_digits\<close>).
\<close>

definition py_decimal :: "string \<Rightarrow> nat option" where
  "py_decimal s =
     (if length (filter (\<lambda>c. c \<noteq> CHR ''_'') s) > 4300 then None
      else (case py_digits 10 0 False s of
              None \<Rightarrow> None
            | Some n \<Rightarrow> if take 1 s = ''0'' \<and> n \<noteq> 0 then None else Some n))"

fun py_magnitude :: "string \<Rightarrow> nat option" where
  "py_magnitude (z # c # r) =
     (if z = CHR ''0'' \<and> (c = CHR ''x'' \<or> c = CHR ''X'') then py_prefixed 16 r
      else if z = CHR ''0'' \<and> (c = CHR ''o'' \<or> c = CHR ''O'') then py_prefixed 8 r
      else if z = CHR ''0'' \<and> (c = CHR ''b'' \<or> c = CHR ''B'') then py_prefixed 2 r
      else py_decimal (z # c # r))"
| "py_magnitude s = py_decimal s"

text \<open>
  The whitespace \<^verbatim>\<open>int\<close> drops around a literal is not that of \<^verbatim>\<open>strip\<close>: of the ASCII
  characters only tab, LF, VT, FF, CR and space, so that FS, GS, RS and US make the literal
  invalid; from 128 on, the two whitespace characters, which \<^verbatim>\<open>int\<close> first turns into
  spaces.
\<close>

definition py_int_isspace :: "char \<Rightarrow> bool" where
  "py_int_isspace c =
     (let n = (of_char c :: nat) in (9 \<le> n \<and> n \<le> 13) \<or> n = 32 \<or> n = 133 \<or> n = 160)"

definition py_int_strip :: "string \<Rightarrow> string" where
  "py_int_strip s = rev (dropWhile py_int_isspace (rev (dropWhile py_int_isspace s)))"

text \<open>
  \<^verbatim>\<open>int(s, 0)\<close>: surrounding whitespace is dropped, one sign may lead, the base comes from
  the prefix; anything else raises ValueError.
\<close>

definition py_int0 :: "string \<Rightarrow> error + int" where
  "py_int0 x =
     (let s = py_int_strip x;
          neg = (take 1 s = ''-'');
          body = (if take 1 s = ''-'' \<or> take 1 s = ''+'' then drop 1 s else s)
      in case py_magnitude body of
           None \<Rightarrow> Inl ValueError
         | Some n \<Rightarrow> Inr (if neg then - int n else int n))"

section \<open>Symbol tables: \<^verbatim>\<open>gather_c_funcs\<close>\<close>

type_synonym table = "int \<rightharpoonup> string"

text \<open>
  One line of \<^verbatim>\<open>include/functions.h\<close>. A line that does not start with the marker is
  passed over; a recognised line stores its name under its address and, when the address
  token carries \<^verbatim>\<open>!\<close> at offset 10, adds the name to the labels to emit.
\<close>

definition auto_func_line :: "string \<Rightarrow> table \<times> string set \<Rightarrow> error + (table \<times> string set)" where
  "auto_func_line line st =
     (if py_startswith line ''/* 0x'' then
        (let line_split = py_split CHR '' '' (py_strip line) in
         bind_err (py_index line_split 1) (\<lambda>addr_comment.
         bind_err (py_int0 (py_slice_to addr_comment 10)) (\<lambda>addr.
         bind_err (py_index line_split 4) (\<lambda>tok.
           (let name = py_slice_to tok (py_find CHR ''('' tok);
                labels = (if length addr_comment > 10 \<and> addr_comment ! 10 = CHR ''!''
                          then insert name (snd st) else snd st)
            in Inr ((fst st)(addr \<mapsto> name), labels))))))
      else Inr st)"

text \<open>
  One line of \<^verbatim>\<open>tools/symbol_addrs.txt\<close>: \<^verbatim>\<open>name;address;\<close>. A leading \<^verbatim>\<open>!\<close> is cut
  from the name, which is then added to the labels to emit.
\<close>

definition manual_func_line :: "string \<Rightarrow> table \<times> string set \<Rightarrow> error + (table \<times> string set)" where
  "manual_func_line line st =
     (let line_split = py_split CHR '';'' (py_strip line) in
      bind_err (py_index line_split 0) (\<lambda>name0.
        (let flagged = py_startswith name0 ''!'';
             name = (if flagged then drop 1 name0 else name0);
             labels = (if flagged then insert name (snd st) else snd st)
         in bind_err (py_index line_split 1) (\<lambda>tok.
            bind_err (py_int0 tok) (\<lambda>addr.
              Inr ((fst st)(addr \<mapsto> name), labels))))))"

text \<open>
  \<^verbatim>\<open>gather_c_funcs\<close>. Each source is the list \<^verbatim>\<open>readlines()\<close> returns, or \<open>None\<close> when
  the file does not exist. The automatic source is read first, the manual one second,
  into the same dictionary and the same set.
\<close>

definition read_source ::
  "(string \<Rightarrow> 's \<Rightarrow> error + 's) \<Rightarrow> string list option \<Rightarrow> 's \<Rightarrow> error + 's" where
  "read_source body src s = (case src of None \<Rightarrow> Inr s | Some ls \<Rightarrow> for_each body ls s)"

definition gather_c_funcs ::
  "string list option \<Rightarrow> string list option \<Rightarrow> error + (table \<times> string set)" where
  "gather_c_funcs functions_h symbol_addrs =
     bind_err (read_source auto_func_line functions_h (Map.empty, {}))
       (read_source manual_func_line symbol_addrs)"

subsection \<open>What one line of each function source contributes\<close>

text \<open>
  The reading of the sources in the words of the specification: the address token of a
  declaration line is its second blank-separated field, its name is cut from the fifth
  field, and the line is flagged when the token's 11th character is \<^verbatim>\<open>!\<close>; the name
  field of a manual line is what precedes the first semicolon, flagged by a leading
  \<^verbatim>\<open>!\<close> that is not part of the name.
\<close>

definition auto_token :: "string \<Rightarrow> string" where
  "auto_token line = py_split CHR '' '' (py_strip line) ! 1"

definition auto_flagged :: "string \<Rightarrow> bool" where
  "auto_flagged line =
     (py_startswith line ''/* 0x'' \<and> length (auto_token line) \<ge> 11 \<and>
      auto_token line ! 10 = CHR ''!'')"

definition auto_name :: "string \<Rightarrow> string" where
  "auto_name line =
     (let tok = py_split CHR '' '' (py_strip line) ! 4 in py_slice_to tok (py_find CHR ''('' tok))"

definition manual_field :: "string \<Rightarrow> string" where
  "manual_field line = hd (py_split CHR '';'' (py_strip line))"

definition manual_flagged :: "string \<Rightarrow> bool" where
  "manual_flagged line = (take 1 (manual_field line) = ''!'')"

definition manual_name :: "string \<Rightarrow> string" where
  "manual_name line = drop 1 (manual_field line)"

fun source_lines :: "string list option \<Rightarrow> string list" where
  "source_lines None = []"
| "source_lines (Some ls) = ls"

text \<open>Adding the entries and labels \<open>d\<close> on top of \<open>s\<close>: later entries win.\<close>

definition overlay :: "table \<times> string set \<Rightarrow> table \<times> string set \<Rightarrow> table \<times> string set" where
  "overlay s d = (fst s ++ fst d, snd s \<union> snd d)"


section \<open>Variable tables: \<^verbatim>\<open>gather_c_variables\<close>\<close>

text \<open>
  \<^verbatim>\<open>re.search(r'[\\[;]', s).start()\<close>: the offset of the first backslash, opening
  bracket or semicolon. Without one, \<^verbatim>\<open>re.search\<close> returns \<^verbatim>\<open>None\<close> and \<^verbatim>\<open>.start()\<close>
  raises AttributeError.
\<close>

definition name_end :: "char \<Rightarrow> bool" where
  "name_end c = (c = CHR 0x5C \<or> c = CHR ''['' \<or> c = CHR '';'')"

definition re_search_start :: "string \<Rightarrow> error + nat" where
  "re_search_start s =
     (if list_ex name_end s then Inr (length (takeWhile (\<lambda>c. \<not> name_end c) s))
      else Inl AttributeError)"

text \<open>One line of \<^verbatim>\<open>include/variables.h\<close>.\<close>

definition auto_var_line :: "string \<Rightarrow> table \<Rightarrow> error + table" where
  "auto_var_line line vars =
     (if py_startswith line ''/* 0x'' then
        (let line_split = py_split CHR '' '' (py_strip line) in
         bind_err (py_index line_split 1) (\<lambda>addr_comment.
         bind_err (py_int0 addr_comment) (\<lambda>addr.
         bind_err (py_last line_split) (\<lambda>tok.
         bind_err (re_search_start tok) (\<lambda>k.
           Inr (vars(addr \<mapsto> py_slice_to tok (int k))))))))
      else Inr vars)"

text \<open>
  One line of \<^verbatim>\<open>undefined_syms.txt\<close>. The line is stripped first; what is then empty or
  starts with \<^verbatim>\<open>//\<close> is passed over, anything else is read as \<^verbatim>\<open>name = address;\<close>.
\<close>

definition manual_var_line :: "string \<Rightarrow> table \<Rightarrow> error + table" where
  "manual_var_line line0 vars =
     (let line = py_strip line0 in
      if \<not> line = [] \<and> \<not> py_startswith line ''//'' then
        (let line_split = py_split CHR ''='' line in
         bind_err (py_index line_split 0) (\<lambda>f0.
           (let name = py_strip f0 in
            bind_err (py_index line_split 1) (\<lambda>f1.
            bind_err (py_int0 (py_slice_to (py_strip f1) (-1))) (\<lambda>addr.
              Inr (vars(addr \<mapsto> name)))))))
      else Inr vars)"

definition gather_c_variables ::
  "string list option \<Rightarrow> string list option \<Rightarrow> error + table" where
  "gather_c_variables variables_h undefined_syms =
     bind_err (read_source auto_var_line variables_h Map.empty)
       (read_source manual_var_line undefined_syms)"

text \<open>
  The reading of \<^verbatim>\<open>undefined_syms.txt\<close> in words: a line is passed over when, without
  its surrounding whitespace, it is empty or starts with \<^verbatim>\<open>//\<close>.
\<close>

definition var_line_skipped :: "string \<Rightarrow> bool" where
  "var_line_skipped line = (py_strip line = [] \<or> py_startswith (py_strip line) ''//'')"

text \<open>
  A \<^verbatim>\<open>name = address;\<close> entry in words: the name is what precedes the first \<^verbatim>\<open>=\<close>, the
  address what follows it without its last character, both without surrounding whitespace.
\<close>

definition var_entry :: "string \<Rightarrow> error + (int \<times> string)" where
  "var_entry line =
     (let fields = py_split CHR ''='' (py_strip line) in
      bind_err (py_index fields 1) (\<lambda>f1.
      bind_err (py_int0 (butlast (py_strip f1))) (\<lambda>a.
        Inr (a, py_strip (hd fields)))))"

text \<open>Storing the entry of a line, when the line is one.\<close>

definition store_entry :: "string \<Rightarrow> table \<Rightarrow> error + table" where
  "store_entry line vars =
     (case var_entry line of Inl e \<Rightarrow> Inl e | Inr (a, n) \<Rightarrow> Inr (vars(a \<mapsto> n)))"

fun lines_kept :: "string list option \<Rightarrow> string list option" where
  "lines_kept None = None"
| "lines_kept (Some ls) = Some (filter (\<lambda>l. \<not> var_line_skipped l) ls)"

section \<open>Output files\<close>

text \<open>
  The files the driver itself writes, by path. \<^verbatim>\<open>os.path.join\<close> of the output directory
  and a relative or absolute file name, on a POSIX system.
\<close>

type_synonym files = "string \<rightharpoonup> string"

definition path_join :: "string \<Rightarrow> string \<Rightarrow> string" where
  "path_join a b =
     (if py_startswith b ''/'' then b
      else if a = [] \<or> last a = CHR ''/'' then a @ b
      else a @ ''/'' @ b)"

text \<open>\<^verbatim>\<open>sep.join(xs)\<close>\<close>

fun py_join :: "string \<Rightarrow> string list \<Rightarrow> string" where
  "py_join sep [] = []"
| "py_join sep [x] = x"
| "py_join sep (x # y # ys) = x @ sep @ py_join sep (y # ys)"

text \<open>\<^verbatim>\<open>s.replace(c, new)\<close> for one character \<open>c\<close>.\<close>

definition py_replace :: "char \<Rightarrow> string \<Rightarrow> string \<Rightarrow> string" where
  "py_replace c new s = concat (map (\<lambda>x. if x = c then new else [x]) s)"

text \<open>The three \<^verbatim>\<open>f.write\<close> calls of \<^verbatim>\<open>write_ldscript\<close>, one after the other.\<close>

definition ldscript_text :: "string list \<Rightarrow> string" where
  "ldscript_text sections =
     ''SECTIONS\<newline>{\<newline>''
     @ py_join ''\<newline>    '' (map (py_replace CHR ''\<newline>'' ''\<newline>    '') sections)
     @ ''\<newline>}\<newline>''"

definition write_ldscript :: "string \<Rightarrow> string \<Rightarrow> string list \<Rightarrow> files \<Rightarrow> files" where
  "write_ldscript rom_name repo_path sections fs =
     fs(path_join repo_path (rom_name @ ''.ld'') \<mapsto> ldscript_text sections)"

text \<open>\<^verbatim>\<open>f"{n:X}"\<close>: upper-case hexadecimal, with a minus sign for a negative number.\<close>

definition hex_digit :: "nat \<Rightarrow> char" where
  "hex_digit d = ''0123456789ABCDEF'' ! (d mod 16)"

fun hex_nat :: "nat \<Rightarrow> string" where
  "hex_nat n = (if n < 16 then [hex_digit n] else hex_nat (n div 16) @ [hex_digit (n mod 16)])"

definition format_X :: "int \<Rightarrow> string" where
  "format_X n = (if n < 0 then CHR ''-'' # hex_nat (nat (- n)) else hex_nat (nat n))"

definition ld_addrs_h_text :: "(string \<times> int) list \<Rightarrow> string" where
  "ld_addrs_h_text symbols =
     ''#ifndef _SPLAT_LD_ADDRS_H_\<newline>#define _SPLAT_LD_ADDRS_H_\<newline>\<newline>''
     @ concat (map (\<lambda>(symbol, addr).
         ''extern void* '' @ symbol @ '';\<newline>''
         @ ''#define LD_'' @ symbol @ '' '' @ ''0x'' @ format_X addr @ ''\<newline>''
         @ ''\<newline>'') symbols)
     @ ''#endif\<newline>''"

definition write_ld_addrs_h :: "string \<Rightarrow> string \<Rightarrow> (string \<times> int) list \<Rightarrow> files \<Rightarrow> files" where
  "write_ld_addrs_h repo_path h_path symbols fs =
     fs(path_join repo_path h_path \<mapsto> ld_addrs_h_text symbols)"

section \<open>The report of undefined functions\<close>

text \<open>
  The members of the sets the report is computed from are Python objects of two types:
  the labels are \<^verbatim>\<open>str\<close>, the keys of the function table are \<^verbatim>\<open>int\<close>. A set difference
  removes a member only when it is equal to a member of the other set, and a \<^verbatim>\<open>str\<close> is
  never equal to an \<^verbatim>\<open>int\<close>.
\<close>

datatype pyval = PyInt int | PyStr string

text \<open>\<^verbatim>\<open>undefined_funcs - defined_funcs - c_predefined_funcs\<close>\<close>

definition residual :: "string set \<Rightarrow> string set \<Rightarrow> int set \<Rightarrow> pyval set" where
  "residual undefined_funcs defined_funcs c_predefined_funcs =
     PyStr ` undefined_funcs - PyStr ` defined_funcs - PyInt ` c_predefined_funcs"

text \<open>\<^verbatim>\<open>sorted\<close> of that set, whose members are all strings.\<close>

definition to_write :: "string set \<Rightarrow> string set \<Rightarrow> int set \<Rightarrow> string list" where
  "to_write undefined_funcs defined_funcs c_predefined_funcs =
     sorted_list_of_set {s. PyStr s \<in> residual undefined_funcs defined_funcs c_predefined_funcs}"

text \<open>\<^verbatim>\<open>s[5:13]\<close>\<close>

definition name_address :: "string \<Rightarrow> string" where
  "name_address s = take (13 - 5) (drop 5 s)"

definition report_line :: "string \<Rightarrow> string" where
  "report_line line = line @ '' = 0x'' @ py_upper (name_address line) @ '';\<newline>''"

text \<open>
  Upper case in words, for ASCII text: each of the letters \<^verbatim>\<open>a\<close> to \<^verbatim>\<open>z\<close> becomes its
  capital, any other character stays.
\<close>

definition ascii_upper :: "char \<Rightarrow> char" where
  "ascii_upper c =
     (case map_of (zip ''abcdefghijklmnopqrstuvwxyz'' ''ABCDEFGHIJKLMNOPQRSTUVWXYZ'') c of
        None \<Rightarrow> c
      | Some u \<Rightarrow> u)"

definition write_undefined_funcs ::
  "string \<Rightarrow> string set \<Rightarrow> string set \<Rightarrow> table \<Rightarrow> files \<Rightarrow> files" where
  "write_undefined_funcs repo_path undefined_funcs defined_funcs c_funcs fs =
     (let c_predefined_funcs = dom c_funcs;
          tw = to_write undefined_funcs defined_funcs c_predefined_funcs
      in if length tw > 0
         then fs(path_join repo_path ''undefined_funcs.txt'' \<mapsto> concat (map report_line tw))
         else fs)"


section \<open>The driver: \<^verbatim>\<open>main\<close>\<close>

subsection \<open>Configuration\<close>

text \<open>
  A segment entry of the YAML configuration is a list or a mapping of scalars; the driver
  itself only takes its length.
\<close>

datatype yaml = YInt int | YStr string

datatype descriptor = SegList "yaml list" | SegDict "(string \<times> yaml) list"

fun py_len :: "descriptor \<Rightarrow> nat" where
  "py_len (SegList xs) = length xs"
| "py_len (SegDict kvs) = length kvs"

text \<open>
  \<^verbatim>\<open>args.modes\<close>: the list given on the command line, or the default, which is the string
  \<^verbatim>\<open>"all"\<close>. \<^verbatim>\<open>x in modes\<close> is membership in the list and containment in the string.
\<close>

datatype modes = ModesStr string | ModesList "string list"

definition is_substring :: "string \<Rightarrow> string \<Rightarrow> bool" where
  "is_substring x s = list_ex (\<lambda>i. take (length x) (drop i s) = x) [0..<Suc (length s)]"

fun py_in_modes :: "string \<Rightarrow> modes \<Rightarrow> bool" where
  "py_in_modes x (ModesStr s) = is_substring x s"
| "py_in_modes x (ModesList l) = (x \<in> set l)"

record config =
  basename :: string
  config_segments :: "descriptor list"
  ld_addrs_header :: "string option"

text \<open>The four text files of the output directory the driver reads, when they exist.\<close>

record sources =
  src_functions_h :: "string list option"
  src_symbol_addrs :: "string list option"
  src_variables_h :: "string list option"
  src_undefined_syms :: "string list option"

subsection \<open>Segments and their classes\<close>

text \<open>
  What the driver reads of a segment class: whether it is the class \<^verbatim>\<open>N64SegCode\<close> that
  the driver imports, and its attribute \<^verbatim>\<open>require_unique_name\<close>.
\<close>

record seg_class =
  is_N64SegCode :: bool
  require_unique_name :: bool

text \<open>
  The driver's own objects that it hands to a code segment. A segment attribute bound to
  one of them is a reference: it sees every later update of the object.
\<close>

datatype driver_object = Defined_funcs | C_funcs | C_vars | C_func_labels_to_add

text \<open>
  A segment object. \<open>config_index\<close> is the position of its entry in the configuration and
  stands for the identity of the object; the last four fields are the attributes the
  driver sets on a code segment, unset on any other.
\<close>

record segment =
  config_index :: nat
  seg_type :: string
  seg_name :: string
  rom_start :: int
  rom_end :: int
  class_of :: seg_class
  all_functions :: "driver_object option"
  c_functions :: "driver_object option"
  c_variables :: "driver_object option"
  c_labels_to_add :: "driver_object option"

text \<open>The values of the driver's four objects at the time of a call.\<close>

record store =
  store_defined_funcs :: "string set"
  store_c_funcs :: table
  store_c_vars :: table
  store_c_func_labels_to_add :: "string set"

text \<open>
  The segment kinds are outside the driver. What they do is a parameter of the model:
  \<^item> \<open>parse_segment_type\<close> and \<open>parse_segment_name\<close> read the kind and the name of an entry,
    \<open>None\<close> when they raise;
  \<^item> \<open>import_class\<close> is \<^verbatim>\<open>importlib.import_module\<close> followed by \<^verbatim>\<open>getattr\<close>, \<open>None\<close> for
    a kind without a module or class;
  \<^item> \<open>check\<close> is false when \<^verbatim>\<open>segment.check()\<close> raises;
  \<^item> \<open>split\<close> gives the attributes \<^verbatim>\<open>glabels_added\<close> and \<^verbatim>\<open>glabels_to_add\<close> a code segment
    has after \<^verbatim>\<open>segment.split(rom_bytes, repo_path)\<close>; a segment only reads the driver's
    objects it was handed;
  \<^item> \<open>get_ld_section\<close> gives the text and the items of the dictionary that
    \<^verbatim>\<open>segment.get_ld_section()\<close> returns.
  The ROM bytes, the options and the output path are the same for every call of a run and
  are not written out.
\<close>

record plugins =
  parse_segment_type :: "descriptor \<Rightarrow> string option"
  parse_segment_name :: "descriptor \<Rightarrow> seg_class \<Rightarrow> string option"
  import_class :: "string \<Rightarrow> seg_class option"
  check :: "segment \<Rightarrow> bool"
  split :: "segment \<Rightarrow> store \<Rightarrow> string set \<times> string set"
  get_ld_section :: "segment \<Rightarrow> string \<times> (string \<times> int) list"

text \<open>Modelled from the spec: the segment base class and its helpers (\<^verbatim>\<open>segtypes/segment.py\<close>)
  are not among the sources. The specification gives a descriptor a start address
  (\<open>romStart: integer address\<close>), the first field of a list entry or the field \<^verbatim>\<open>start\<close>
  of a mapping entry.
\<close>

fun descriptor_start :: "descriptor \<Rightarrow> error + int" where
  "descriptor_start (SegList []) = Inl ConfigurationError"
| "descriptor_start (SegList (YInt a # rest)) = Inr a"
| "descriptor_start (SegList (YStr s # rest)) = Inl ConfigurationError"
| "descriptor_start (SegDict kvs) =
     (case map_of kvs ''start'' of
        None \<Rightarrow> Inl ConfigurationError
      | Some (YInt a) \<Rightarrow> Inr a
      | Some (YStr s) \<Rightarrow> Inl ConfigurationError)"

text \<open>A call into the code of the segment kinds that raises ends the run.\<close>

definition raising :: "error \<Rightarrow> 'a option \<Rightarrow> error + 'a" where
  "raising e r = (case r of None \<Rightarrow> Inl e | Some x \<Rightarrow> Inr x)"

text \<open>Modelled from the spec: the constructor \<^verbatim>\<open>segment_class(segment, next_segment, options)\<close>
  is not among the sources. By the specification the segment gets the kind, the name and
  the start of its own descriptor, and \<open>romEnd\<close> is the start of the next raw descriptor,
  which the driver passes as second argument.
\<close>

definition new_segment ::
  "plugins \<Rightarrow> seg_class \<Rightarrow> nat \<Rightarrow> descriptor \<Rightarrow> descriptor \<Rightarrow> error + segment" where
  "new_segment P cls i seg next_seg =
     bind_err (descriptor_start seg) (\<lambda>start.
     bind_err (descriptor_start next_seg) (\<lambda>stop.
     bind_err (raising ConfigurationError (parse_segment_type P seg)) (\<lambda>ty.
     bind_err (raising ConfigurationError (parse_segment_name P seg cls)) (\<lambda>nm.
       Inr \<lparr>config_index = i, seg_type = ty, seg_name = nm, rom_start = start, rom_end = stop,
            class_of = cls, all_functions = None, c_functions = None, c_variables = None,
            c_labels_to_add = None\<rparr>))))"

subsection \<open>The state of a run\<close>

text \<open>Every call the driver makes on a segment, and every line it prints, in order.\<close>

datatype event =
    Print string
  | Check segment
  | Split segment
  | Get_ld_section segment
  | Postsplit segment "segment list"

text \<open>\<^verbatim>\<open>d[k] = v\<close> on an \<^verbatim>\<open>OrderedDict\<close>: a known key keeps its place.\<close>

fun od_set :: "string \<Rightarrow> int \<Rightarrow> (string \<times> int) list \<Rightarrow> (string \<times> int) list" where
  "od_set k v [] = [(k, v)]"
| "od_set k v ((k', v') # kvs) = (if k = k' then (k, v) # kvs else (k', v') # od_set k v kvs)"

definition od_update :: "(string \<times> int) list \<Rightarrow> (string \<times> int) list \<Rightarrow> (string \<times> int) list" where
  "od_update d items = fold (\<lambda>(k, v). od_set k v) items d"

record state =
  c_funcs :: table
  c_func_labels_to_add :: "string set"
  c_vars :: table
  segments :: "segment list"
  ld_sections :: "string list"
  ld_symbols :: "(string \<times> int) list"
  seen_segment_names :: "string set"
  defined_funcs :: "string set"
  undefined_funcs :: "string set"
  trace :: "event list"
  files :: files

definition store_of :: "state \<Rightarrow> store" where
  "store_of st =
     \<lparr>store_defined_funcs = defined_funcs st, store_c_funcs = c_funcs st,
      store_c_vars = c_vars st, store_c_func_labels_to_add = c_func_labels_to_add st\<rparr>"

definition emit :: "event \<Rightarrow> state \<Rightarrow> state" where
  "emit e st = st\<lparr>trace := trace st @ [e]\<rparr>"

text \<open>The four assignments to the attributes of a code segment.\<close>

definition inject :: "segment \<Rightarrow> segment" where
  "inject seg =
     seg\<lparr>all_functions := Some Defined_funcs, c_functions := Some C_funcs,
         c_variables := Some C_vars, c_labels_to_add := Some C_func_labels_to_add\<rparr>"

definition symbol_line :: "string \<times> int \<Rightarrow> string" where
  "symbol_line p = fst p @ '' = 0x'' @ format_X (snd p) @ '';\<newline>''"

subsection \<open>The first pass\<close>

text \<open>
  The body of the loop over \<^verbatim>\<open>enumerate(config['segments'])\<close>, in three parts. An
  exception leaves the run with the state reached so far.

  First part: from the entry to the segment object, appended to \<^verbatim>\<open>segments\<close>.
\<close>

definition construct ::
  "plugins \<Rightarrow> descriptor list \<Rightarrow> nat \<Rightarrow> state \<Rightarrow> (error \<times> state) + (segment \<times> state)" where
  "construct P cfg i st =
     (case parse_segment_type P (cfg ! i) of
        None \<Rightarrow> Inl (ConfigurationError, st)
      | Some seg_ty \<Rightarrow>
     (case import_class P seg_ty of
        None \<Rightarrow> Inl (ModuleNotFoundError, st)
      | Some segment_class \<Rightarrow>
     (case py_index cfg (i + 1) of
        Inl e \<Rightarrow> Inl (e, st)
      | Inr next_segment \<Rightarrow>
     (case new_segment P segment_class i (cfg ! i) next_segment of
        Inl e \<Rightarrow> Inl (e, st)
      | Inr seg \<Rightarrow> Inr (seg, st\<lparr>segments := segments st @ [seg]\<rparr>)))))"

text \<open>Second part: the name check, which ends the run with \<^verbatim>\<open>exit(1)\<close>.\<close>

definition unique_name :: "segment \<Rightarrow> state \<Rightarrow> (error \<times> state) + state" where
  "unique_name seg st =
     (if require_unique_name (class_of seg) then
        (if seg_name seg \<in> seen_segment_names st then
           Inl (SystemExit 1,
                emit (Print (''ERROR: Segment name '' @ seg_name seg @ '' is not unique'')) st)
         else Inr (st\<lparr>seen_segment_names := insert (seg_name seg) (seen_segment_names st)\<rparr>))
      else Inr st)"

text \<open>
  Third part: the attributes of a code segment, \<^verbatim>\<open>check\<close>, \<^verbatim>\<open>split\<close>, the labels of a code
  segment, and the linker section.
\<close>

definition split_segment :: "plugins \<Rightarrow> bool \<Rightarrow> segment \<Rightarrow> state \<Rightarrow> (error \<times> state) + state" where
  "split_segment P verbose seg0 st0 =
     (let is_code = is_N64SegCode (class_of seg0);
          seg = (if is_code then inject seg0 else seg0);
          st1 = st0\<lparr>segments := butlast (segments st0) @ [seg]\<rparr>;
          st2 = (if verbose
                 then emit (Print (''Splitting '' @ seg_type seg @ '' '' @ seg_name seg
                                   @ '' at 0x'' @ format_X (rom_start seg))) st1
                 else st1);
          st3 = emit (Check seg) st2
      in if \<not> check P seg then Inl (ValidationError, st3)
         else
           (let st4 = emit (Split seg) st3;
                labels = split P seg (store_of st3);
                st5 = (if is_code
                       then st4\<lparr>defined_funcs := defined_funcs st4 \<union> fst labels,
                                undefined_funcs := undefined_funcs st4 \<union> snd labels\<rparr>
                       else st4);
                st6 = emit (Get_ld_section seg) st5;
                ld = get_ld_section P seg;
                ld_section = fst ld @ concat (map symbol_line (snd ld))
            in Inr (st6\<lparr>ld_sections := ld_sections st6 @ [ld_section],
                        ld_symbols := od_update (ld_symbols st6) (snd ld)\<rparr>)))"

definition init_segment ::
  "plugins \<Rightarrow> bool \<Rightarrow> descriptor list \<Rightarrow> nat \<Rightarrow> state \<Rightarrow> (error \<times> state) + state" where
  "init_segment P verbose cfg i st =
     (if py_len (cfg ! i) = 1 then Inr st
      else
        (case construct P cfg i st of
           Inl x \<Rightarrow> Inl x
         | Inr (seg, st1) \<Rightarrow>
        (case unique_name seg st1 of
           Inl x \<Rightarrow> Inl x
         | Inr st2 \<Rightarrow> split_segment P verbose seg st2)))"

definition init_segments ::
  "plugins \<Rightarrow> bool \<Rightarrow> descriptor list \<Rightarrow> state \<Rightarrow> (error \<times> state) + state" where
  "init_segments P verbose cfg st = for_each (init_segment P verbose cfg) [0..<length cfg] st"

subsection \<open>The second pass and the output\<close>

definition postsplit_all :: "state \<Rightarrow> state" where
  "postsplit_all st =
     st\<lparr>trace := trace st @ map (\<lambda>seg. Postsplit seg (segments st)) (segments st)\<rparr>"

definition write_ld :: "config \<Rightarrow> string \<Rightarrow> modes \<Rightarrow> state \<Rightarrow> state" where
  "write_ld cfg repo_path ms st =
     (if py_in_modes ''ld'' ms \<or> py_in_modes ''all'' ms then
        (let fs1 = write_ldscript (basename cfg) repo_path (ld_sections st) (files st);
             fs2 = (case ld_addrs_header cfg of
                      None \<Rightarrow> fs1
                    | Some h_path \<Rightarrow> write_ld_addrs_h repo_path h_path (ld_symbols st) fs1)
         in st\<lparr>files := fs2\<rparr>)
      else st)"

definition write_report :: "string \<Rightarrow> state \<Rightarrow> state" where
  "write_report repo_path st =
     st\<lparr>files := write_undefined_funcs repo_path (undefined_funcs st) (defined_funcs st)
                    (c_funcs st) (files st)\<rparr>"

definition initial_state :: "files \<Rightarrow> state" where
  "initial_state fs =
     \<lparr>c_funcs = Map.empty, c_func_labels_to_add = {}, c_vars = Map.empty, segments = [],
      ld_sections = [], ld_symbols = [], seen_segment_names = {}, defined_funcs = {},
      undefined_funcs = {}, trace = [], files = fs\<rparr>"

text \<open>
  \<^verbatim>\<open>main\<close>, for a configuration that has its \<^verbatim>\<open>basename\<close>, \<^verbatim>\<open>options\<close> and \<^verbatim>\<open>segments\<close>,
  started with the files \<open>fs\<close> in place. The result is the final state, or the exception
  that ended the run together with the state it was raised in.
\<close>

definition main ::
  "plugins \<Rightarrow> sources \<Rightarrow> config \<Rightarrow> string \<Rightarrow> modes \<Rightarrow> bool \<Rightarrow> files \<Rightarrow> (error \<times> state) + state" where
  "main P src cfg repo_path ms verbose fs =
     (case gather_c_funcs (src_functions_h src) (src_symbol_addrs src) of
        Inl e \<Rightarrow> Inl (e, initial_state fs)
      | Inr (funcs, labels) \<Rightarrow>
     (case gather_c_variables (src_variables_h src) (src_undefined_syms src) of
        Inl e \<Rightarrow> Inl (e, initial_state fs)
      | Inr vars \<Rightarrow>
     (case init_segments P verbose (config_segments cfg)
             ((initial_state fs)\<lparr>c_funcs := funcs, c_func_labels_to_add := labels,
                                  c_vars := vars\<rparr>) of
        Inl x \<Rightarrow> Inl x
      | Inr st \<Rightarrow> Inr (write_report repo_path (write_ld cfg repo_path ms (postsplit_all st))))))"


subsection \<open>A small set of segment kinds, for the examples\<close>

text \<open>
  Two kinds with entries of the form \<^verbatim>\<open>[start, kind, name]\<close>: \<^verbatim>\<open>bin\<close>, and \<^verbatim>\<open>code\<close> whose
  class is \<^verbatim>\<open>N64SegCode\<close>. Both require unique names. A code segment defines the label of
  its own name and requires \<^verbatim>\<open>func_80001000\<close>; the linker section of a segment is its name.
\<close>

fun example_type :: "descriptor \<Rightarrow> string option" where
  "example_type (SegList (a # YStr t # rest)) = Some t"
| "example_type d = None"

fun example_name :: "descriptor \<Rightarrow> string option" where
  "example_name (SegList (a # t # YStr n # rest)) = Some n"
| "example_name d = None"

definition example_class :: "string \<Rightarrow> seg_class option" where
  "example_class t =
     (if t = ''code'' then Some \<lparr>is_N64SegCode = True, require_unique_name = True\<rparr>
      else if t = ''bin'' then Some \<lparr>is_N64SegCode = False, require_unique_name = True\<rparr>
      else None)"

definition example_plugins :: plugins where
  "example_plugins =
     \<lparr>parse_segment_type = example_type,
      parse_segment_name = (\<lambda>d cls. example_name d),
      import_class = example_class,
      check = (\<lambda>seg. True),
      split = (\<lambda>seg st. ({seg_name seg}, {''func_80001000''})),
      get_ld_section = (\<lambda>seg. (seg_name seg, []))\<rparr>"

definition no_sources :: sources where
  "no_sources =
     \<lparr>src_functions_h = None, src_symbol_addrs = None, src_variables_h = None,
      src_undefined_syms = None\<rparr>"

definition example_config :: "descriptor list \<Rightarrow> config" where
  "example_config segs = \<lparr>basename = ''rom'', config_segments = segs, ld_addrs_header = None\<rparr>"

subsection \<open>Reading a trace\<close>

text \<open>The segments \<^verbatim>\<open>split\<close> was called on, in the order of the calls.\<close>

fun split_calls :: "event list \<Rightarrow> segment list" where
  "split_calls [] = []"
| "split_calls (Split seg # es) = seg # split_calls es"
| "split_calls (e # es) = split_calls es"

fun check_calls :: "event list \<Rightarrow> segment list" where
  "check_calls [] = []"
| "check_calls (Check seg # es) = seg # check_calls es"
| "check_calls (e # es) = check_calls es"

fun is_postsplit :: "event \<Rightarrow> bool" where
  "is_postsplit (Postsplit seg segs) = True"
| "is_postsplit e = False"

text \<open>The entries of a configuration that are not the one-field end marker.\<close>

definition segment_entries :: "descriptor list \<Rightarrow> nat list" where
  "segment_entries cfg = filter (\<lambda>i. py_len (cfg ! i) \<noteq> 1) [0..<length cfg]"

text \<open>The segment object once the driver has set the attributes of a code segment.\<close>

definition final_segment :: "segment \<Rightarrow> segment" where
  "final_segment seg = (if is_N64SegCode (class_of seg) then inject seg else seg)"

text \<open>What a pass through the loop body does when it returns.\<close>

definition step_ok :: "plugins \<Rightarrow> descriptor list \<Rightarrow> nat \<Rightarrow> state \<Rightarrow> state \<Rightarrow> segment \<Rightarrow> bool" where
  "step_ok P cfg i st st' seg0 =
     (new_segment P (class_of seg0) i (cfg ! i) (cfg ! Suc i) = Inr seg0 \<and>
      Suc i < length cfg \<and>
      (\<exists>ty. parse_segment_type P (cfg ! i) = Some ty \<and> import_class P ty = Some (class_of seg0)) \<and>
      segments st' = segments st @ [final_segment seg0] \<and>
      split_calls (trace st') = split_calls (trace st) @ [final_segment seg0] \<and>
      check_calls (trace st') = check_calls (trace st) @ [final_segment seg0] \<and>
      list_ex is_postsplit (trace st') = list_ex is_postsplit (trace st) \<and>
      seen_segment_names st \<subseteq> seen_segment_names st' \<and>
      (require_unique_name (class_of seg0) \<longrightarrow>
         seg_name seg0 \<in> seen_segment_names st' \<and> seg_name seg0 \<notin> seen_segment_names st) \<and>
      c_funcs st' = c_funcs st \<and> c_vars st' = c_vars st \<and>
      c_func_labels_to_add st' = c_func_labels_to_add st \<and>
      defined_funcs st' =
        (if is_N64SegCode (class_of seg0)
         then defined_funcs st \<union> fst (split P (final_segment seg0) (store_of st))
         else defined_funcs st) \<and>
      undefined_funcs st' =
        (if is_N64SegCode (class_of seg0)
         then undefined_funcs st \<union> snd (split P (final_segment seg0) (store_of st))
         else undefined_funcs st))"

text \<open>What holds after the entries before \<open>k\<close>, for a loop started in \<open>st0\<close>.\<close>

definition loop_inv :: "plugins \<Rightarrow> descriptor list \<Rightarrow> state \<Rightarrow> nat \<Rightarrow> state \<Rightarrow> bool" where
  "loop_inv P cfg st0 k st =
     (\<exists>segs0.
        segments st = segments st0 @ map final_segment segs0 \<and>
        split_calls (trace st) = split_calls (trace st0) @ map final_segment segs0 \<and>
        map config_index segs0 = filter (\<lambda>i. py_len (cfg ! i) \<noteq> 1) [0..<k] \<and>
        (\<forall>seg \<in> set segs0.
           Suc (config_index seg) < length cfg \<and>
           new_segment P (class_of seg) (config_index seg) (cfg ! config_index seg)
             (cfg ! Suc (config_index seg)) = Inr seg) \<and>
        list_ex is_postsplit (trace st) = list_ex is_postsplit (trace st0) \<and>
        c_funcs st = c_funcs st0)"

text \<open>
  The configuration of the first testable property: two \<^verbatim>\<open>bin\<close> entries starting at
  \<^verbatim>\<open>0x1000\<close> and \<^verbatim>\<open>0x2000\<close>, and the end marker \<^verbatim>\<open>[0x3000]\<close>.
\<close>

definition example_segments :: "descriptor list" where
  "example_segments =
     [SegList [YInt 0x1000, YStr ''bin'', YStr ''a''],
      SegList [YInt 0x2000, YStr ''bin'', YStr ''b''],
      SegList [YInt 0x3000]]"

text \<open>Two entries of the kind \<^verbatim>\<open>bin\<close> with the same name, and the end marker.\<close>

definition duplicate_segments :: "descriptor list" where
  "duplicate_segments =
     [SegList [YInt 0x1000, YStr ''bin'', YStr ''main''],
      SegList [YInt 0x2000, YStr ''bin'', YStr ''main''],
      SegList [YInt 0x3000]]"

text \<open>An entry of the kind \<^verbatim>\<open>bin\<close>, one of the kind \<^verbatim>\<open>code\<close>, and the end marker.\<close>

definition mixed_segments :: "descriptor list" where
  "mixed_segments =
     [SegList [YInt 0x1000, YStr ''bin'', YStr ''header''],
      SegList [YInt 0x2000, YStr ''code'', YStr ''main''],
      SegList [YInt 0x3000]]"


section \<open>Properties of the symbol tables\<close>

lemma bind_err_simps [simp]:
  "bind_err (Inl e) f = Inl e" "bind_err (Inr x) f = f x"
  by (simp_all add: bind_err_def)

lemma py_split_nonempty: "py_split sep s \<noteq> []"
  by (induction s) (auto split: list.splits)

lemmas eval_defs =
  read_source_def py_startswith_def py_strip_def py_lstrip_def py_rstrip_def py_isspace_def
  py_index_def py_int0_def py_int_strip_def py_int_isspace_def py_slice_to_def py_prefixed_def
  py_decimal_def digit_val_def Let_def bind_err_def

lemma overlay_assoc: "overlay (overlay s d) e = overlay s (overlay d e)"
  by (simp add: overlay_def Un_assoc)

text \<open>Neither kind of line looks at the table or the set it updates.\<close>

lemma auto_func_line_delta:
  "auto_func_line line s =
     (case auto_func_line line (Map.empty, {}) of Inl e \<Rightarrow> Inl e | Inr d \<Rightarrow> Inr (overlay s d))"
  by (auto simp: auto_func_line_def overlay_def bind_err_def Let_def split: sum.splits)

lemma manual_func_line_delta:
  "manual_func_line line s =
     (case manual_func_line line (Map.empty, {}) of Inl e \<Rightarrow> Inl e | Inr d \<Rightarrow> Inr (overlay s d))"
  by (auto simp: manual_func_line_def overlay_def bind_err_def Let_def split: sum.splits)

lemma for_each_delta:
  assumes step: "\<And>x s. body x s =
     (case body x (Map.empty, {}) of Inl e \<Rightarrow> Inl e | Inr d \<Rightarrow> Inr (overlay s d))"
  shows "for_each body xs s =
     (case for_each body xs (Map.empty, {}) of Inl e \<Rightarrow> Inl e | Inr d \<Rightarrow> Inr (overlay s d))"
proof (induction xs arbitrary: s)
  case Nil
  show ?case by (simp add: overlay_def)
next
  case (Cons x xs)
  show ?case
  proof (cases "body x (Map.empty, {})")
    case (Inl e)
    then show ?thesis using step [of x s] by simp
  next
    case (Inr d)
    then have bs: "body x s = Inr (overlay s d)" using step [of x s] by simp
    show ?thesis
      using Inr bs Cons.IH [of "overlay s d"] Cons.IH [of d]
      by (auto simp: overlay_assoc split: sum.splits)
  qed
qed

lemma for_each_labels:
  assumes step: "\<And>x s. body x s =
     (case body x (Map.empty, {}) of Inl e \<Rightarrow> Inl e | Inr d \<Rightarrow> Inr (overlay s d))"
    and lab: "\<And>x d. body x (Map.empty, {}) = Inr d \<Longrightarrow> snd d = F x"
  shows "for_each body xs s = Inr r \<Longrightarrow> snd r = snd s \<union> \<Union> (F ` set xs)"
proof (induction xs arbitrary: s)
  case Nil
  then show ?case by simp
next
  case (Cons x xs)
  from Cons.prems obtain s' where b: "body x s = Inr s'" and r: "for_each body xs s' = Inr r"
    by (auto split: sum.splits)
  from b step [of x s] obtain d where d: "body x (Map.empty, {}) = Inr d" and s': "s' = overlay s d"
    by (auto split: sum.splits)
  have "snd s' = snd s \<union> F x" using lab [OF d] s' by (simp add: overlay_def)
  with Cons.IH [OF r] show ?case by auto
qed

lemma auto_func_line_labels:
  "auto_func_line line (Map.empty, {}) = Inr d \<Longrightarrow>
     snd d = (if auto_flagged line then {auto_name line} else {})"
  by (auto simp: auto_func_line_def auto_flagged_def auto_name_def auto_token_def
        py_index_def bind_err_def Let_def split: sum.splits if_splits)

lemma manual_func_line_labels:
  "manual_func_line line (Map.empty, {}) = Inr d \<Longrightarrow>
     snd d = (if manual_flagged line then {manual_name line} else {})"
  using py_split_nonempty [of "CHR '';''" "py_strip line"]
  by (auto simp: manual_func_line_def manual_flagged_def manual_name_def manual_field_def
        py_index_def py_startswith_def bind_err_def Let_def hd_conv_nth split: sum.splits if_splits)

text \<open>
  Claim C4. The table \<^verbatim>\<open>gather_c_funcs\<close> returns is the table of the automatic source
  overridden by the table of the manual source: where both give a name to an address, the
  manual name is the one kept. For the automatic table \<open>{0x1000: "a"}\<close> and the manual
  table \<open>{0x1000: "b"}\<close> the result is \<open>{0x1000: "b"}\<close>.
\<close>

theorem gather_c_funcs_manual_wins:
  assumes "gather_c_funcs functions_h symbol_addrs = Inr (funcs, labels)"
  shows "\<exists>auto alabels manual mlabels.
           gather_c_funcs functions_h None = Inr (auto, alabels) \<and>
           gather_c_funcs None symbol_addrs = Inr (manual, mlabels) \<and>
           funcs = auto ++ manual"
proof (cases symbol_addrs)
  case None
  then show ?thesis using assms
    by (auto simp: gather_c_funcs_def read_source_def split: sum.splits)
next
  case (Some ms)
  obtain a where a: "read_source auto_func_line functions_h (Map.empty, {}) = Inr a"
    and r: "for_each manual_func_line ms a = Inr (funcs, labels)"
    using assms Some
    by (auto simp: gather_c_funcs_def read_source_def bind_err_def split: sum.splits)
  from r for_each_delta [of manual_func_line ms a, OF manual_func_line_delta]
  obtain d where d: "for_each manual_func_line ms (Map.empty, {}) = Inr d"
    and e: "(funcs, labels) = overlay a d"
    by (auto split: sum.splits)
  show ?thesis using a d e Some
    by (cases a; cases d) (auto simp: gather_c_funcs_def read_source_def overlay_def)
qed

theorem gather_c_funcs_manual_wins_witness:
  "gather_c_funcs (Some [''/* 0x00001000 */ void a(void);\<newline>'']) (Some [''b;0x1000;\<newline>''])
     = Inr ([0x1000 \<mapsto> ''b''], {})
   \<and> (\<exists>auto alabels manual mlabels.
        gather_c_funcs (Some [''/* 0x00001000 */ void a(void);\<newline>'']) None = Inr (auto, alabels) \<and>
        gather_c_funcs None (Some [''b;0x1000;\<newline>'']) = Inr (manual, mlabels) \<and>
        auto 0x1000 = Some ''a'' \<and> manual 0x1000 = Some ''b'' \<and>
        [0x1000 \<mapsto> ''b''] = auto ++ manual)"
proof -
  have g: "gather_c_funcs (Some [''/* 0x00001000 */ void a(void);\<newline>'']) (Some [''b;0x1000;\<newline>''])
     = Inr ([0x1000 \<mapsto> ''b''], {})"
    by (simp add: gather_c_funcs_def auto_func_line_def manual_func_line_def eval_defs)
  have a: "gather_c_funcs (Some [''/* 0x00001000 */ void a(void);\<newline>'']) None
     = Inr ([0x1000 \<mapsto> ''a''], {})"
    by (simp add: gather_c_funcs_def auto_func_line_def manual_func_line_def eval_defs)
  have m: "gather_c_funcs None (Some [''b;0x1000;\<newline>'']) = Inr ([0x1000 \<mapsto> ''b''], {})"
    by (simp add: gather_c_funcs_def auto_func_line_def manual_func_line_def eval_defs)
  show ?thesis using g gather_c_funcs_manual_wins [OF g] a m by auto
qed

text \<open>
  Claim C6. The labels \<^verbatim>\<open>gather_c_funcs\<close> returns are exactly the names of the
  declaration lines whose address token has \<^verbatim>\<open>!\<close> as its 11th character, together with
  the names, without their leading \<^verbatim>\<open>!\<close>, of the manual lines whose name field starts with
  \<^verbatim>\<open>!\<close>. A declaration with the token \<^verbatim>\<open>0x80001000!\<close> and the manual line
  \<^verbatim>\<open>!foo;0x80002000;\<close> both put their name into the set.
\<close>

theorem explicit_labels_exact:
  assumes "gather_c_funcs functions_h symbol_addrs = Inr (funcs, labels)"
  shows "labels = auto_name ` {l \<in> set (source_lines functions_h). auto_flagged l}
               \<union> manual_name ` {l \<in> set (source_lines symbol_addrs). manual_flagged l}"
proof -
  obtain a where a: "read_source auto_func_line functions_h (Map.empty, {}) = Inr a"
    and m: "read_source manual_func_line symbol_addrs a = Inr (funcs, labels)"
    using assms by (auto simp: gather_c_funcs_def bind_err_def split: sum.splits)
  have la: "snd a = auto_name ` {l \<in> set (source_lines functions_h). auto_flagged l}"
  proof (cases functions_h)
    case None
    then show ?thesis using a by (auto simp: read_source_def)
  next
    case (Some ls)
    then have "for_each auto_func_line ls (Map.empty, {}) = Inr a"
      using a by (simp add: read_source_def)
    from for_each_labels [of auto_func_line "\<lambda>l. if auto_flagged l then {auto_name l} else {}",
        OF auto_func_line_delta auto_func_line_labels this]
    show ?thesis using Some by auto
  qed
  have lm: "labels = snd a \<union> manual_name ` {l \<in> set (source_lines symbol_addrs). manual_flagged l}"
  proof (cases symbol_addrs)
    case None
    then show ?thesis using m by (auto simp: read_source_def)
  next
    case (Some ls)
    then have "for_each manual_func_line ls a = Inr (funcs, labels)"
      using m by (simp add: read_source_def)
    from for_each_labels [of manual_func_line
        "\<lambda>l. if manual_flagged l then {manual_name l} else {}",
        OF manual_func_line_delta manual_func_line_labels this]
    show ?thesis using Some by auto
  qed
  show ?thesis using la lm by simp
qed

theorem explicit_labels_exact_witness:
  "gather_c_funcs (Some [''/* 0x80001000! */ void bar(void);\<newline>''])
       (Some [''!foo;0x80002000;\<newline>''])
     = Inr ([0x80001000 \<mapsto> ''bar'', 0x80002000 \<mapsto> ''foo''], {''foo'', ''bar''})
   \<and> {''foo'', ''bar''} =
       auto_name ` {l \<in> set [''/* 0x80001000! */ void bar(void);\<newline>'']. auto_flagged l}
     \<union> manual_name ` {l \<in> set [''!foo;0x80002000;\<newline>'']. manual_flagged l}"
proof -
  have g: "gather_c_funcs (Some [''/* 0x80001000! */ void bar(void);\<newline>''])
       (Some [''!foo;0x80002000;\<newline>''])
     = Inr ([0x80001000 \<mapsto> ''bar'', 0x80002000 \<mapsto> ''foo''], {''foo'', ''bar''})"
    by (simp add: gather_c_funcs_def auto_func_line_def manual_func_line_def eval_defs)
  show ?thesis using g explicit_labels_exact [OF g] by simp
qed

section \<open>Properties of the variable table\<close>

lemma py_lstrip_Cons: "\<not> py_isspace a \<Longrightarrow> py_lstrip (a # s) = a # s"
  by (simp add: py_lstrip_def)

lemma py_rstrip_Cons: "\<not> py_isspace a \<Longrightarrow> py_rstrip (a # s) = a # py_rstrip s"
  by (simp add: py_rstrip_def dropWhile_append)

lemma py_rstrip_snoc:
  "py_rstrip (s @ [c]) = (if py_isspace c then py_rstrip s else s @ [c])"
  by (simp add: py_rstrip_def)

lemma py_lstrip_snoc: "\<not> py_isspace c \<Longrightarrow> py_lstrip (s @ [c]) = py_lstrip s @ [c]"
  by (simp add: py_lstrip_def dropWhile_append)

lemma py_split_none: "sep \<notin> set s \<Longrightarrow> py_split sep s = [s]"
  by (induction s) auto

lemma py_split_first:
  "sep \<notin> set u \<Longrightarrow> py_split sep (u @ sep # v) = u # py_split sep v"
  by (induction u) auto

lemma py_slice_to_minus1: "py_slice_to s (-1) = butlast s"
  by (simp add: py_slice_to_def butlast_conv_take nat_diff_distrib')

lemma isspace_chars [simp]:
  "py_isspace CHR '' ''" "py_isspace CHR ''\<newline>''" "\<not> py_isspace CHR '';''"
  "\<not> py_isspace CHR ''/''" "\<not> py_isspace CHR ''=''"
  by (simp_all add: py_isspace_def)

lemma comment_stays:
  assumes "py_startswith line ''//''"
  shows "py_startswith (py_strip line) ''//''"
proof -
  from assms obtain r where l: "line = CHR ''/'' # CHR ''/'' # r"
    by (cases line; cases "tl line") (auto simp: py_startswith_def)
  show ?thesis
    by (simp add: l py_strip_def py_lstrip_Cons py_rstrip_Cons py_startswith_def)
qed

lemma skipped_step: "var_line_skipped line \<Longrightarrow> manual_var_line line vars = Inr vars"
  by (auto simp: var_line_skipped_def manual_var_line_def Let_def)

lemma parsed_step:
  "\<not> var_line_skipped line \<Longrightarrow>
   manual_var_line line vars =
     (case var_entry line of Inl e \<Rightarrow> Inl e | Inr (a, n) \<Rightarrow> Inr (vars(a \<mapsto> n)))"
  using py_split_nonempty [of "CHR ''=''" "py_strip line"]
  by (auto simp: var_line_skipped_def manual_var_line_def var_entry_def Let_def py_index_def
        py_slice_to_minus1 hd_conv_nth bind_err_def split: sum.splits)

lemma for_each_kept:
  "for_each manual_var_line (filter (\<lambda>l. \<not> var_line_skipped l) ls) vars
     = for_each manual_var_line ls vars"
  by (induction ls arbitrary: vars) (auto simp: skipped_step split: sum.splits)

lemma gather_kept: "gather_c_variables vh (lines_kept us) = gather_c_variables vh us"
  by (cases us) (auto simp: gather_c_variables_def read_source_def for_each_kept bind_err_def
        split: sum.splits)

lemma for_each_entries:
  "for_each manual_var_line ls vars
     = for_each store_entry (filter (\<lambda>l. \<not> var_line_skipped l) ls) vars"
proof (induction ls arbitrary: vars)
  case Nil
  show ?case by simp
next
  case (Cons l ls)
  show ?case
  proof (cases "var_line_skipped l")
    case True
    then show ?thesis using Cons.IH by (simp add: skipped_step)
  next
    case False
    then have "manual_var_line l vars = store_entry l vars"
      using parsed_step [OF False, of vars] by (simp add: store_entry_def)
    then show ?thesis using False Cons.IH by (simp split: sum.splits)
  qed
qed

lemma gather_entries:
  "gather_c_variables vh us =
     bind_err (read_source auto_var_line vh Map.empty)
       (for_each store_entry (filter (\<lambda>l. \<not> var_line_skipped l) (source_lines us)))"
proof -
  have "read_source manual_var_line us
      = for_each store_entry (filter (\<lambda>l. \<not> var_line_skipped l) (source_lines us))"
    by (rule ext, cases us) (simp_all add: read_source_def for_each_entries)
  then show ?thesis by (simp add: gather_c_variables_def)
qed

lemma entry_line:
  assumes n: "name \<noteq> []" "\<not> py_isspace (hd name)" "\<not> py_isspace (last name)"
      "CHR ''='' \<notin> set name"
    and t: "atext \<noteq> []" "\<not> py_isspace (hd atext)" "CHR ''='' \<notin> set atext"
  shows "py_strip (name @ '' = '' @ atext @ '';\<newline>'') = name @ '' = '' @ atext @ '';''"
    and "var_entry (name @ '' = '' @ atext @ '';\<newline>'')
           = bind_err (py_int0 atext) (\<lambda>a. Inr (a, name))"
proof -
  obtain a r where nm: "name = a # r" using n(1) by (cases name) auto
  have a: "\<not> py_isspace a" using n(2) nm by simp
  obtain b q where at: "atext = b # q" using t(1) by (cases atext) auto
  have b: "\<not> py_isspace b" using t(2) at by simp
  have "py_lstrip (name @ '' = '' @ atext @ '';\<newline>'') = name @ '' = '' @ atext @ '';\<newline>''"
    using a by (simp add: nm py_lstrip_Cons)
  moreover have "py_rstrip (name @ '' = '' @ atext @ '';\<newline>'') = name @ '' = '' @ atext @ '';''"
    using py_rstrip_snoc [of "name @ '' = '' @ atext @ '';''" "CHR ''\<newline>''"]
          py_rstrip_snoc [of "name @ '' = '' @ atext" "CHR '';''"]
    by simp
  ultimately show s: "py_strip (name @ '' = '' @ atext @ '';\<newline>'') = name @ '' = '' @ atext @ '';''"
    by (simp add: py_strip_def)
  have sp: "py_split CHR ''='' (name @ '' = '' @ atext @ '';'') = [name @ '' '', '' '' @ atext @ '';'']"
    using py_split_first [of "CHR ''=''" "name @ '' ''" "'' '' @ atext @ '';''"]
          py_split_none [of "CHR ''=''" "'' '' @ atext @ '';''"] n(4) t(3)
    by simp
  have f0: "py_strip (name @ '' '') = name"
  proof -
    have "py_lstrip (name @ '' '') = name @ '' ''" using a by (simp add: nm py_lstrip_Cons)
    moreover have "py_rstrip (name @ '' '') = py_rstrip name"
      using py_rstrip_snoc [of name "CHR '' ''"] by simp
    moreover have "py_rstrip name = name"
      using py_rstrip_snoc [of "butlast name" "last name"] n(1,3) by simp
    ultimately show ?thesis by (simp add: py_strip_def)
  qed
  have f1: "py_strip ('' '' @ atext @ '';'') = atext @ '';''"
  proof -
    have "py_lstrip ('' '' @ atext @ '';'') = atext @ '';''"
      using b by (simp add: at py_lstrip_def)
    then show ?thesis
      using py_rstrip_snoc [of atext "CHR '';''"] by (simp add: py_strip_def)
  qed
  show "var_entry (name @ '' = '' @ atext @ '';\<newline>'')
           = bind_err (py_int0 atext) (\<lambda>a. Inr (a, name))"
    using s sp f0 f1 by (simp add: var_entry_def py_index_def Let_def)
qed

text \<open>
  Claim C9. In \<^verbatim>\<open>undefined_syms.txt\<close> a blank line and a line beginning with \<^verbatim>\<open>//\<close> leave
  the table as it is; every other line is read as a \<^verbatim>\<open>name = address;\<close> entry. The table
  \<^verbatim>\<open>gather_c_variables\<close> returns is the table of \<^verbatim>\<open>variables.h\<close> with the entries of those
  other lines stored one after the other, and a line written as \<^verbatim>\<open>name = address;\<close>
  stores the name under the address. (The driver strips a line before it looks at it, so
  a comment may also be indented.)
\<close>

theorem manual_var_lines:
  "(py_strip line = [] \<or> py_startswith line ''//'' \<longrightarrow>
      var_line_skipped line \<and> manual_var_line line vars = Inr vars)
   \<and> (var_line_skipped line \<longrightarrow> manual_var_line line vars = Inr vars)
   \<and> (\<not> var_line_skipped line \<longrightarrow> manual_var_line line vars = store_entry line vars)
   \<and> gather_c_variables vh us =
        bind_err (read_source auto_var_line vh Map.empty)
          (for_each store_entry (filter (\<lambda>l. \<not> var_line_skipped l) (source_lines us)))
   \<and> (name \<noteq> [] \<and> \<not> py_isspace (hd name) \<and> \<not> py_isspace (last name) \<and>
        CHR ''='' \<notin> set name \<and> \<not> py_startswith name ''//'' \<and>
        atext \<noteq> [] \<and> \<not> py_isspace (hd atext) \<and> CHR ''='' \<notin> set atext \<and>
        py_int0 atext = Inr addr \<longrightarrow>
        \<not> var_line_skipped (name @ '' = '' @ atext @ '';\<newline>'') \<and>
        store_entry (name @ '' = '' @ atext @ '';\<newline>'') vars = Inr (vars(addr \<mapsto> name)) \<and>
        manual_var_line (name @ '' = '' @ atext @ '';\<newline>'') vars = Inr (vars(addr \<mapsto> name)))"
proof -
  have 1: "py_strip line = [] \<or> py_startswith line ''//'' \<Longrightarrow> var_line_skipped line"
    using comment_stays by (auto simp: var_line_skipped_def)
  have 3: "\<not> var_line_skipped line \<Longrightarrow> manual_var_line line vars = store_entry line vars"
    using parsed_step [of line vars] by (simp add: store_entry_def)
  have 5: "\<not> var_line_skipped (name @ '' = '' @ atext @ '';\<newline>'') \<and>
        store_entry (name @ '' = '' @ atext @ '';\<newline>'') vars = Inr (vars(addr \<mapsto> name)) \<and>
        manual_var_line (name @ '' = '' @ atext @ '';\<newline>'') vars = Inr (vars(addr \<mapsto> name))"
    if h: "name \<noteq> []" "\<not> py_isspace (hd name)" "\<not> py_isspace (last name)"
        "CHR ''='' \<notin> set name" "\<not> py_startswith name ''//''"
        "atext \<noteq> []" "\<not> py_isspace (hd atext)" "CHR ''='' \<notin> set atext"
        "py_int0 atext = Inr addr"
  proof -
    note e = entry_line [OF h(1,2,3,4,6,7,8)]
    have pre: "\<not> py_startswith (name @ '' = '' @ atext @ '';'') ''//''"
    proof (cases name)
      case Nil
      then show ?thesis using h(1) by simp
    next
      case (Cons x r)
      then show ?thesis using h(3,5) by (cases r) (auto simp: py_startswith_def)
    qed
    have ns: "\<not> var_line_skipped (name @ '' = '' @ atext @ '';\<newline>'')"
      unfolding var_line_skipped_def e(1) using h(1) pre by simp
    have se: "store_entry (name @ '' = '' @ atext @ '';\<newline>'') vars = Inr (vars(addr \<mapsto> name))"
      using e(2) h(9) by (simp add: store_entry_def)
    show ?thesis using ns se parsed_step [OF ns, of vars] by (simp add: store_entry_def)
  qed
  show ?thesis using 1 3 5 skipped_step gather_entries by blast
qed

theorem manual_var_lines_witness:
  "manual_var_line ''\<newline>'' Map.empty = Inr Map.empty
   \<and> manual_var_line ''// comment\<newline>'' Map.empty = Inr Map.empty
   \<and> manual_var_line ''bar = 0x80002000;\<newline>'' Map.empty = Inr [0x80002000 \<mapsto> ''bar'']
   \<and> gather_c_variables None
        (Some [''\<newline>'', ''// comment\<newline>'', ''bar = 0x80002000;\<newline>'', ''  baz = 0x80002004;\<newline>''])
       = Inr [0x80002000 \<mapsto> ''bar'', 0x80002004 \<mapsto> ''baz'']"
proof -
  have a: "py_strip ''\<newline>'' = []" by (simp add: eval_defs)
  have b: "py_startswith ''// comment\<newline>'' ''//''" by (simp add: py_startswith_def)
  have c: "''bar'' \<noteq> [] \<and> \<not> py_isspace (hd ''bar'') \<and> \<not> py_isspace (last ''bar'') \<and>
        CHR ''='' \<notin> set ''bar'' \<and> \<not> py_startswith ''bar'' ''//'' \<and>
        ''0x80002000'' \<noteq> [] \<and> \<not> py_isspace (hd ''0x80002000'') \<and>
        CHR ''='' \<notin> set ''0x80002000'' \<and>
        py_int0 ''0x80002000'' = Inr 0x80002000"
    by (simp add: eval_defs)
  have k: "filter (\<lambda>l. \<not> var_line_skipped l)
       (source_lines (Some [''\<newline>'', ''// comment\<newline>'', ''bar = 0x80002000;\<newline>'',
          ''  baz = 0x80002004;\<newline>'']))
     = [''bar = 0x80002000;\<newline>'', ''  baz = 0x80002004;\<newline>'']"
    by (simp add: var_line_skipped_def eval_defs)
  have e1: "store_entry ''bar = 0x80002000;\<newline>'' Map.empty = Inr [0x80002000 \<mapsto> ''bar'']"
    by (simp add: store_entry_def var_entry_def eval_defs)
  have e2: "store_entry ''  baz = 0x80002004;\<newline>'' [0x80002000 \<mapsto> ''bar'']
      = Inr [0x80002000 \<mapsto> ''bar'', 0x80002004 \<mapsto> ''baz'']"
    by (simp add: store_entry_def var_entry_def eval_defs)
  note t1 = manual_var_lines [of "''\<newline>''" Map.empty None
      "Some [''\<newline>'', ''// comment\<newline>'', ''bar = 0x80002000;\<newline>'', ''  baz = 0x80002004;\<newline>'']"
      "''bar''" "''0x80002000''" "0x80002000", unfolded k]
  note t2 = manual_var_lines [of "''// comment\<newline>''" Map.empty None None "''bar''"
      "''0x80002000''" "0x80002000"]
  have g: "gather_c_variables None
        (Some [''\<newline>'', ''// comment\<newline>'', ''bar = 0x80002000;\<newline>'', ''  baz = 0x80002004;\<newline>''])
       = Inr [0x80002000 \<mapsto> ''bar'', 0x80002004 \<mapsto> ''baz'']"
    using t1 e1 e2 by (simp add: read_source_def)
  show ?thesis using t1 t2 a b c g by simp
qed

section \<open>Properties of the output files\<close>

text \<open>
  Claim C2. For the fragments \<^verbatim>\<open>"A"\<close> and \<^verbatim>\<open>"B"\<close> the linker script \<^verbatim>\<open>write_ldscript\<close>
  writes is \<^verbatim>\<open>SECTIONS\n{\nA\n    B\n}\n\<close>: the separator of \<^verbatim>\<open>join\<close> indents every fragment
  but the first, which starts in the first column, so the text is not the
  \<^verbatim>\<open>SECTIONS\n{\n    A\n    B\n}\n\<close> of the claim.
\<close>

theorem ldscript_first_fragment_not_indented:
  "ldscript_text [''A'', ''B''] = ''SECTIONS\<newline>{\<newline>A\<newline>    B\<newline>}\<newline>''
   \<and> ldscript_text [''A'', ''B''] \<noteq> ''SECTIONS\<newline>{\<newline>    A\<newline>    B\<newline>}\<newline>''
   \<and> write_ldscript ''rom'' ''out'' [''A'', ''B''] Map.empty ''out/rom.ld''
        = Some ''SECTIONS\<newline>{\<newline>A\<newline>    B\<newline>}\<newline>''"
  by (simp add: ldscript_text_def py_replace_def write_ldscript_def path_join_def
        py_startswith_def)

lemma residual_names: "residual U D K = PyStr ` (U - D)"
  by (auto simp: residual_def)

lemma residual_strings: "{s. PyStr s \<in> residual U D K} = U - D"
  by (auto simp: residual_names)

lemma to_write_eq: "to_write U D K = sorted_list_of_set (U - D)"
  by (simp add: to_write_def residual_strings)

lemma take_drop_nth:
  "i + k \<le> length xs \<Longrightarrow> take k (drop i xs) = map (\<lambda>j. xs ! j) [i..<i + k]"
  by (rule nth_equalityI) simp_all

lemma name_address_nth:
  assumes "13 \<le> length n"
  shows "name_address n = map (\<lambda>k. n ! k) [5..<13]"
proof -
  have "take 8 (drop 5 n) = map (\<lambda>j. n ! j) [5..<5 + 8]"
    using assms by (intro take_drop_nth) simp
  then show ?thesis by (simp add: name_address_def)
qed

lemma report_line_example: "report_line ''func_80001000'' = ''func_80001000 = 0x80001000;\<newline>''"
  by code_simp

text \<open>
  Claim C3. The third operand of the difference is the set of the integer keys of the
  function table, and no name is equal to an integer: with the required name
  \<^verbatim>\<open>func_80001000\<close>, nothing defined and the table \<open>{0x80001000: "func_80001000"}\<close>, the
  name is still reported, although its function is known by address.
\<close>

theorem known_address_still_reported:
  "to_write {''func_80001000''} {} (dom [0x80001000 \<mapsto> ''func_80001000''])
     = [''func_80001000'']
   \<and> write_undefined_funcs ''out'' {''func_80001000''} {}
        [0x80001000 \<mapsto> ''func_80001000''] Map.empty ''out/undefined_funcs.txt''
     = Some ''func_80001000 = 0x80001000;\<newline>''"
  by (simp add: write_undefined_funcs_def to_write_eq report_line_example path_join_def
        py_startswith_def)

lemma lower_case_letters:
  assumes "97 \<le> (of_char c :: nat)" "(of_char c :: nat) \<le> 122"
  shows "c \<in> set ''abcdefghijklmnopqrstuvwxyz''"
proof -
  have "(of_char c :: nat) \<in> of_char ` set ''abcdefghijklmnopqrstuvwxyz''"
    using assms by simp arith
  then obtain d where "d \<in> set ''abcdefghijklmnopqrstuvwxyz''" "(of_char c :: nat) = of_char d"
    by blast
  then show ?thesis by simp
qed

lemma upper_of_letters:
  "\<forall>c \<in> set ''abcdefghijklmnopqrstuvwxyz''. py_upper_char c = ascii_upper c"
  by code_simp

lemma py_upper_char_ascii:
  assumes "(of_char c :: nat) < 128"
  shows "py_upper_char c = ascii_upper c"
proof (cases "c \<in> set ''abcdefghijklmnopqrstuvwxyz''")
  case True
  then show ?thesis using upper_of_letters by blast
next
  case False
  then have "\<not> (97 \<le> (of_char c :: nat) \<and> (of_char c :: nat) \<le> 122)"
    using lower_case_letters by blast
  moreover have "map_of (zip ''abcdefghijklmnopqrstuvwxyz'' ''ABCDEFGHIJKLMNOPQRSTUVWXYZ'') c = None"
    using False by (simp add: map_of_eq_None_iff)
  ultimately show ?thesis using assms by (auto simp: py_upper_char_def ascii_upper_def Let_def)
qed

lemma py_upper_ascii:
  "\<forall>c \<in> set s. (of_char c :: nat) < 128 \<Longrightarrow> py_upper s = map ascii_upper s"
  by (simp add: py_upper_def py_upper_char_ascii)

text \<open>
  Claim C7. The report lists the remaining names in lexicographic order, each once, one
  line \<^verbatim>\<open>name = 0xADDRESS;\<close> per name, where \<^verbatim>\<open>ADDRESS\<close> is \<^verbatim>\<open>name[5:13]\<close> in upper case:
  the characters at offsets 5 to 12 of a name that has them, its letters \<^verbatim>\<open>a\<close> to \<^verbatim>\<open>z\<close>
  turned into capitals (the names are ASCII there). The file is written only when a name
  remains. For the required names \<^verbatim>\<open>func_8000abcd\<close> and \<^verbatim>\<open>func_80001000\<close> the file is the
  two lines \<^verbatim>\<open>func_80001000 = 0x80001000;\<close> and \<^verbatim>\<open>func_8000abcd = 0x8000ABCD;\<close>.
\<close>

theorem undefined_funcs_report:
  assumes "finite required"
    and "\<forall>n \<in> required. \<forall>c \<in> set (name_address n). (of_char c :: nat) < 128"
  shows "sorted (to_write required defined (dom funcs))
    \<and> distinct (to_write required defined (dom funcs))
    \<and> set (to_write required defined (dom funcs))
        = {s. PyStr s \<in> residual required defined (dom funcs)}
    \<and> write_undefined_funcs repo_path required defined funcs fs
        = (if {s. PyStr s \<in> residual required defined (dom funcs)} = {} then fs
           else fs(path_join repo_path ''undefined_funcs.txt'' \<mapsto>
                  concat (map (\<lambda>n. n @ '' = 0x'' @ map ascii_upper (name_address n) @ '';\<newline>'')
                    (to_write required defined (dom funcs)))))
    \<and> (\<forall>n. 13 \<le> length n \<longrightarrow> name_address n = map (\<lambda>k. n ! k) [5..<13])"
proof -
  have fin: "finite (required - defined)" using assms(1) by simp
  have s: "set (to_write required defined (dom funcs)) = required - defined"
    using fin by (simp add: to_write_eq)
  have e: "(to_write required defined (dom funcs) = []) = (required - defined = {})"
    using s by (metis set_empty)
  have rl: "report_line n = n @ '' = 0x'' @ map ascii_upper (name_address n) @ '';\<newline>''"
    if "n \<in> set (to_write required defined (dom funcs))" for n
  proof -
    have "n \<in> required" using that s by simp
    then have "py_upper (name_address n) = map ascii_upper (name_address n)"
      using assms(2) by (intro py_upper_ascii) simp
    then show ?thesis by (simp add: report_line_def)
  qed
  have m: "map report_line (to_write required defined (dom funcs))
      = map (\<lambda>n. n @ '' = 0x'' @ map ascii_upper (name_address n) @ '';\<newline>'')
          (to_write required defined (dom funcs))"
    using rl by (simp cong: map_cong)
  have addr: "\<forall>n. 13 \<le> length n \<longrightarrow> name_address n = map (\<lambda>k. n ! k) [5..<13]"
    using name_address_nth by blast
  have sd: "sorted (to_write required defined (dom funcs))"
    "distinct (to_write required defined (dom funcs))"
    by (simp_all add: to_write_eq)
  have st: "set (to_write required defined (dom funcs))
        = {s. PyStr s \<in> residual required defined (dom funcs)}"
    using s by (simp add: residual_strings)
  have w: "write_undefined_funcs repo_path required defined funcs fs
        = (if {s. PyStr s \<in> residual required defined (dom funcs)} = {} then fs
           else fs(path_join repo_path ''undefined_funcs.txt'' \<mapsto>
                  concat (map (\<lambda>n. n @ '' = 0x'' @ map ascii_upper (name_address n) @ '';\<newline>'')
                    (to_write required defined (dom funcs)))))"
    using e by (simp add: residual_strings write_undefined_funcs_def Let_def m)
  from sd st w
  have "sorted (to_write required defined (dom funcs))
    \<and> distinct (to_write required defined (dom funcs))
    \<and> set (to_write required defined (dom funcs))
        = {s. PyStr s \<in> residual required defined (dom funcs)}
    \<and> write_undefined_funcs repo_path required defined funcs fs
        = (if {s. PyStr s \<in> residual required defined (dom funcs)} = {} then fs
           else fs(path_join repo_path ''undefined_funcs.txt'' \<mapsto>
                  concat (map (\<lambda>n. n @ '' = 0x'' @ map ascii_upper (name_address n) @ '';\<newline>'')
                    (to_write required defined (dom funcs)))))"
    by (intro conjI)
  with addr show ?thesis by blast
qed

theorem undefined_funcs_report_witness:
  "write_undefined_funcs ''out'' {''func_8000abcd'', ''func_80001000''} {} Map.empty Map.empty
     = [''out/undefined_funcs.txt'' \<mapsto>
          ''func_80001000 = 0x80001000;\<newline>func_8000abcd = 0x8000ABCD;\<newline>'']
   \<and> write_undefined_funcs ''out'' {''func_80001000''} {''func_80001000''} Map.empty Map.empty
     = Map.empty
   \<and> to_write {''func_b'', ''func_a''} {} {} = [''func_a'', ''func_b'']"
proof -
  have a: "{s. PyStr s \<in> residual {''func_8000abcd'', ''func_80001000''} {}
              (dom (Map.empty :: table))} = {''func_8000abcd'', ''func_80001000''}"
    by (simp add: residual_strings)
  have b: "{s. PyStr s \<in> residual {''func_80001000''} {''func_80001000''}
              (dom (Map.empty :: table))} = {}"
    by (simp add: residual_strings)
  have c: "to_write {''func_8000abcd'', ''func_80001000''} {} (dom (Map.empty :: table))
      = [''func_80001000'', ''func_8000abcd'']"
    by (simp add: to_write_eq)
  have d: "map ascii_upper (name_address ''func_80001000'') = ''80001000''"
    "map ascii_upper (name_address ''func_8000abcd'') = ''8000ABCD''"
    by (simp_all add: ascii_upper_def name_address_def)
  have p: "path_join ''out'' ''undefined_funcs.txt'' = ''out/undefined_funcs.txt''"
    by (simp add: path_join_def py_startswith_def)
  have o: "to_write {''func_b'', ''func_a''} {} {} = [''func_a'', ''func_b'']"
    by (simp add: to_write_eq)
  have f2: "finite {''func_8000abcd'', ''func_80001000''}" by simp
  have f1: "finite {''func_80001000''}" by simp
  have h2: "\<forall>n \<in> {''func_8000abcd'', ''func_80001000''}.
      \<forall>c \<in> set (name_address n). (of_char c :: nat) < 128"
    by (simp add: name_address_def)
  have h1: "\<forall>n \<in> {''func_80001000''}. \<forall>c \<in> set (name_address n). (of_char c :: nat) < 128"
    by (simp add: name_address_def)
  note t1 = undefined_funcs_report [OF f2 h2, of "{}" Map.empty "''out''" Map.empty,
      unfolded a c p]
  note t2 = undefined_funcs_report [OF f1 h1, of "{''func_80001000''}" Map.empty "''out''"
      Map.empty, unfolded b]
  have r1: "write_undefined_funcs ''out'' {''func_8000abcd'', ''func_80001000''} {} Map.empty
      Map.empty
     = [''out/undefined_funcs.txt'' \<mapsto>
          ''func_80001000 = 0x80001000;\<newline>func_8000abcd = 0x8000ABCD;\<newline>'']"
    using t1 d by simp
  have r2: "write_undefined_funcs ''out'' {''func_80001000''} {''func_80001000''} Map.empty Map.empty
     = Map.empty"
    using t2 by simp
  show ?thesis using r1 r2 o by simp
qed

section \<open>Properties of the driver\<close>

subsection \<open>Loops\<close>

lemma for_each_append:
  "for_each body (xs @ ys) s =
     (case for_each body xs s of Inl e \<Rightarrow> Inl e | Inr s' \<Rightarrow> for_each body ys s')"
  by (induction xs arbitrary: s) (auto split: sum.splits)

lemma for_each_upt_Suc:
  "for_each body [0..<Suc n] s =
     (case for_each body [0..<n] s of Inl e \<Rightarrow> Inl e | Inr s' \<Rightarrow> body n s')"
  by (simp add: for_each_append split: sum.splits)

lemma for_each_upt_split:
  assumes "j < n"
  shows "for_each body [0..<n] s =
     (case for_each body [0..<j] s of
        Inl e \<Rightarrow> Inl e
      | Inr s' \<Rightarrow> (case body j s' of Inl e \<Rightarrow> Inl e | Inr s'' \<Rightarrow> for_each body [Suc j..<n] s''))"
proof -
  have "[0..<n] = [0..<j] @ j # [Suc j..<n]"
    using assms by (metis less_imp_add_positive upt_add_eq_append upt_conv_Cons zero_le add_0)
  then show ?thesis by (simp add: for_each_append split: sum.splits)
qed

lemma for_each_upt_Inr:
  assumes step: "\<And>i s s'. i < n \<Longrightarrow> I i s \<Longrightarrow> body i s = Inr s' \<Longrightarrow> I (Suc i) s'"
    and init: "I 0 start"
    and run: "for_each body [0..<n] start = Inr s'"
  shows "I n s'"
  using step run
proof (induction n arbitrary: s')
  case 0
  then show ?case using init by simp
next
  case (Suc n)
  from Suc.prems(2) [unfolded for_each_upt_Suc]
  obtain s where p: "for_each body [0..<n] start = Inr s" and b: "body n s = Inr s'"
    by (auto split: sum.splits)
  have "I n s" using Suc.IH [OF _ p] Suc.prems(1) by simp
  then show ?case using Suc.prems(1) [of n s s'] b by simp
qed

lemma for_each_upt_Inl:
  assumes "for_each body [0..<n] start = Inl x"
  shows "\<exists>i<n. \<exists>s. for_each body [0..<i] start = Inr s \<and> body i s = Inl x"
  using assms
proof (induction n)
  case 0
  then show ?case by simp
next
  case (Suc n)
  show ?case
  proof (cases "for_each body [0..<n] start")
    case (Inl y)
    then have "y = x" using Suc.prems [unfolded for_each_upt_Suc] by simp
    with Inl Suc.IH show ?thesis by (metis less_Suc_eq)
  next
    case (Inr s)
    then have "body n s = Inl x" using Suc.prems [unfolded for_each_upt_Suc] by simp
    with Inr show ?thesis by blast
  qed
qed

subsection \<open>The parts of the loop body\<close>

lemma split_calls_append [simp]: "split_calls (xs @ ys) = split_calls xs @ split_calls ys"
  by (induction xs rule: split_calls.induct) auto

lemma check_calls_append [simp]: "check_calls (xs @ ys) = check_calls xs @ check_calls ys"
  by (induction xs rule: check_calls.induct) auto

lemma new_segment_Inr:
  assumes "new_segment P cls i d nd = Inr seg"
  shows "config_index seg = i" "class_of seg = cls"
    "descriptor_start d = Inr (rom_start seg)" "descriptor_start nd = Inr (rom_end seg)"
    "parse_segment_name P d cls = Some (seg_name seg)"
    "all_functions seg = None" "c_functions seg = None" "c_variables seg = None"
    "c_labels_to_add seg = None"
  using assms
  by (auto simp: new_segment_def bind_err_def raising_def split: sum.splits option.splits)

lemma new_segment_Inl: "new_segment P cls i d nd = Inl e \<Longrightarrow> e = ConfigurationError"
proof -
  have d: "\<And>x. descriptor_start x = Inl e \<Longrightarrow> e = ConfigurationError" for e
    by (erule descriptor_start.elims) (auto split: option.splits yaml.splits)
  show "new_segment P cls i d nd = Inl e \<Longrightarrow> e = ConfigurationError"
    using d by (auto simp: new_segment_def bind_err_def raising_def split: sum.splits option.splits)
qed

lemma construct_Inl:
  assumes "construct P cfg i st = Inl (e, st')"
  shows "st' = st" "exit_status e = 1"
  using assms
  by (auto simp: construct_def py_index_def dest: new_segment_Inl
        split: option.splits sum.splits if_splits)

lemma construct_Inr:
  assumes "construct P cfg i st = Inr (seg, st')"
  shows "st' = st\<lparr>segments := segments st @ [seg]\<rparr>"
    "Suc i < length cfg"
    "\<exists>ty. parse_segment_type P (cfg ! i) = Some ty \<and> import_class P ty = Some (class_of seg)"
    "new_segment P (class_of seg) i (cfg ! i) (cfg ! Suc i) = Inr seg"
  using assms new_segment_Inr(2)
  by (auto simp: construct_def py_index_def split: option.splits sum.splits if_splits)

lemma unique_name_Inl:
  assumes "unique_name seg st = Inl (e, st')"
  shows "e = SystemExit 1" "segments st' = segments st" "defined_funcs st' = defined_funcs st"
    "undefined_funcs st' = undefined_funcs st" "split_calls (trace st') = split_calls (trace st)"
    "check_calls (trace st') = check_calls (trace st)"
    "list_ex is_postsplit (trace st') = list_ex is_postsplit (trace st)"
  using assms by (auto simp: unique_name_def emit_def split: if_splits)

lemma unique_name_Inr:
  assumes "unique_name seg st = Inr st'"
  shows "segments st' = segments st" "defined_funcs st' = defined_funcs st"
    "undefined_funcs st' = undefined_funcs st" "trace st' = trace st"
    "c_funcs st' = c_funcs st" "c_vars st' = c_vars st"
    "c_func_labels_to_add st' = c_func_labels_to_add st"
    "seen_segment_names st \<subseteq> seen_segment_names st'"
    "require_unique_name (class_of seg) \<Longrightarrow> seg_name seg \<in> seen_segment_names st'"
    "require_unique_name (class_of seg) \<Longrightarrow> seg_name seg \<notin> seen_segment_names st"
  using assms by (auto simp: unique_name_def split: if_splits)

lemma final_segment_simps [simp]:
  "config_index (final_segment seg) = config_index seg"
  "class_of (final_segment seg) = class_of seg"
  "seg_name (final_segment seg) = seg_name seg"
  "rom_start (final_segment seg) = rom_start seg"
  "rom_end (final_segment seg) = rom_end seg"
  by (simp_all add: final_segment_def inject_def)

lemma split_segment_Inl:
  assumes "split_segment P verbose seg st = Inl (e, st')"
  shows "e = ValidationError" "defined_funcs st' = defined_funcs st"
    "undefined_funcs st' = undefined_funcs st" "split_calls (trace st') = split_calls (trace st)"
    "check_calls (trace st') = check_calls (trace st) @ [final_segment seg]"
    "list_ex is_postsplit (trace st') = list_ex is_postsplit (trace st)"
    "segments st' = butlast (segments st) @ [final_segment seg]"
  using assms
  by (auto simp: split_segment_def Let_def emit_def final_segment_def split: if_splits)

lemma split_segment_Inr:
  assumes "split_segment P verbose seg st = Inr st'"
  shows "segments st' = butlast (segments st) @ [final_segment seg]"
    "split_calls (trace st') = split_calls (trace st) @ [final_segment seg]"
    "check_calls (trace st') = check_calls (trace st) @ [final_segment seg]"
    "list_ex is_postsplit (trace st') = list_ex is_postsplit (trace st)"
    "seen_segment_names st' = seen_segment_names st"
    "c_funcs st' = c_funcs st" "c_vars st' = c_vars st"
    "c_func_labels_to_add st' = c_func_labels_to_add st"
    "defined_funcs st' =
       (if is_N64SegCode (class_of seg)
        then defined_funcs st \<union> fst (split P (final_segment seg) (store_of st))
        else defined_funcs st)"
    "undefined_funcs st' =
       (if is_N64SegCode (class_of seg)
        then undefined_funcs st \<union> snd (split P (final_segment seg) (store_of st))
        else undefined_funcs st)"
  using assms
  by (auto simp: split_segment_def Let_def emit_def final_segment_def store_of_def
        split: if_splits)

lemma store_of_cong:
  "defined_funcs a = defined_funcs b \<Longrightarrow> c_funcs a = c_funcs b \<Longrightarrow> c_vars a = c_vars b \<Longrightarrow>
   c_func_labels_to_add a = c_func_labels_to_add b \<Longrightarrow> store_of a = store_of b"
  by (simp add: store_of_def)

lemma init_segment_Inr:
  assumes "init_segment P verbose cfg i st = Inr st'"
  shows "(py_len (cfg ! i) = 1 \<and> st' = st) \<or> (py_len (cfg ! i) \<noteq> 1 \<and> (\<exists>seg0. step_ok P cfg i st st' seg0))"
proof (cases "py_len (cfg ! i) = 1")
  case True
  then show ?thesis using assms by (simp add: init_segment_def)
next
  case False
  from assms False obtain seg0 st1 st2 where
    c: "construct P cfg i st = Inr (seg0, st1)" and
    u: "unique_name seg0 st1 = Inr st2" and
    s: "split_segment P verbose seg0 st2 = Inr st'"
    by (auto simp: init_segment_def split: sum.splits)
  note c' = construct_Inr [OF c]
  note u' = unique_name_Inr [OF u]
  note s' = split_segment_Inr [OF s]
  have st: "store_of st2 = store_of st"
    by (rule store_of_cong) (simp_all add: u' c'(1))
  have "step_ok P cfg i st st' seg0"
    unfolding step_ok_def
    using c'(2,3,4) u'(8,9,10) s' st
    by (simp add: u'(1-7) c'(1))
  with False show ?thesis by blast
qed

lemma init_segment_Inl:
  assumes "init_segment P verbose cfg i st = Inl (e, st')"
  shows "exit_status e = 1"
    "split_calls (trace st') = split_calls (trace st)"
    "list_ex is_postsplit (trace st') = list_ex is_postsplit (trace st)"
    "defined_funcs st' = defined_funcs st" "undefined_funcs st' = undefined_funcs st"
    "py_len (cfg ! i) \<noteq> 1"
proof -
  have n1: "py_len (cfg ! i) \<noteq> 1" using assms by (auto simp: init_segment_def)
  consider
    (c) "construct P cfg i st = Inl (e, st')"
  | (u) seg0 st1 where "construct P cfg i st = Inr (seg0, st1)" "unique_name seg0 st1 = Inl (e, st')"
  | (s) seg0 st1 st2 where "construct P cfg i st = Inr (seg0, st1)" "unique_name seg0 st1 = Inr st2"
      "split_segment P verbose seg0 st2 = Inl (e, st')"
    using assms n1 by (auto simp: init_segment_def split: sum.splits)
  then have "exit_status e = 1 \<and>
    split_calls (trace st') = split_calls (trace st) \<and>
    list_ex is_postsplit (trace st') = list_ex is_postsplit (trace st) \<and>
    defined_funcs st' = defined_funcs st \<and> undefined_funcs st' = undefined_funcs st"
  proof cases
    case c
    then show ?thesis using construct_Inl [OF c] by simp
  next
    case u
    show ?thesis using construct_Inr(1) [OF u(1)] unique_name_Inl [OF u(2)] by simp
  next
    case s
    show ?thesis
      using construct_Inr(1) [OF s(1)] unique_name_Inr(1-4) [OF s(2)] split_segment_Inl [OF s(3)]
      by simp
  qed
  with n1 show "exit_status e = 1"
    "split_calls (trace st') = split_calls (trace st)"
    "list_ex is_postsplit (trace st') = list_ex is_postsplit (trace st)"
    "defined_funcs st' = defined_funcs st" "undefined_funcs st' = undefined_funcs st"
    "py_len (cfg ! i) \<noteq> 1"
    by simp_all
qed

lemma loop_inv_step:
  assumes i: "loop_inv P cfg st0 k st" and b: "init_segment P verbose cfg k st = Inr st'"
  shows "loop_inv P cfg st0 (Suc k) st'"
proof -
  from i obtain segs0 where
    a: "segments st = segments st0 @ map final_segment segs0"
       "split_calls (trace st) = split_calls (trace st0) @ map final_segment segs0"
       "map config_index segs0 = filter (\<lambda>i. py_len (cfg ! i) \<noteq> 1) [0..<k]"
       "\<forall>seg \<in> set segs0.
           Suc (config_index seg) < length cfg \<and>
           new_segment P (class_of seg) (config_index seg) (cfg ! config_index seg)
             (cfg ! Suc (config_index seg)) = Inr seg"
       "list_ex is_postsplit (trace st) = list_ex is_postsplit (trace st0)"
       "c_funcs st = c_funcs st0"
    unfolding loop_inv_def by blast
  from init_segment_Inr [OF b] show ?thesis
  proof (elim disjE conjE exE)
    assume "py_len (cfg ! k) = 1" "st' = st"
    then show ?thesis unfolding loop_inv_def using a by (intro exI [of _ segs0]) simp
  next
    fix seg0
    assume n: "py_len (cfg ! k) \<noteq> 1" and s: "step_ok P cfg k st st' seg0"
    have ci: "config_index seg0 = k" using s new_segment_Inr(1) unfolding step_ok_def by blast
    show ?thesis
      unfolding loop_inv_def
      using a n s ci
      by (intro exI [of _ "segs0 @ [seg0]"]) (auto simp: step_ok_def)
  qed
qed

lemma init_segments_Inr:
  assumes "init_segments P verbose cfg st0 = Inr st"
  shows "loop_inv P cfg st0 (length cfg) st"
proof (rule for_each_upt_Inr [where body = "init_segment P verbose cfg" and start = st0])
  show "loop_inv P cfg st0 0 st0" by (simp add: loop_inv_def)
  show "for_each (init_segment P verbose cfg) [0..<length cfg] st0 = Inr st"
    using assms by (simp add: init_segments_def)
  show "\<And>i s s'. i < length cfg \<Longrightarrow> loop_inv P cfg st0 i s \<Longrightarrow>
          init_segment P verbose cfg i s = Inr s' \<Longrightarrow> loop_inv P cfg st0 (Suc i) s'"
    by (rule loop_inv_step)
qed

lemma main_Inr:
  assumes "main P src cfg repo_path ms verbose fs = Inr st"
  shows "\<exists>(st0 :: state) (st1 :: state). segments st0 = [] \<and> trace st0 = [] \<and>
           loop_inv P (config_segments cfg) st0 (length (config_segments cfg)) st1 \<and>
           segments st = segments st1 \<and>
           trace st = trace st1 @ map (\<lambda>seg. Postsplit seg (segments st1)) (segments st1)"
proof -
  from assms obtain funcs labels vars st1 where
    l: "init_segments P verbose (config_segments cfg)
          ((initial_state fs)\<lparr>c_funcs := funcs, c_func_labels_to_add := labels, c_vars := vars\<rparr>)
        = Inr st1"
    and e: "st = write_report repo_path (write_ld cfg repo_path ms (postsplit_all st1))"
    by (auto simp: main_def split: sum.splits prod.splits)
  have "segments st = segments st1"
    "trace st = trace st1 @ map (\<lambda>seg. Postsplit seg (segments st1)) (segments st1)"
    by (simp_all add: e write_report_def write_ld_def postsplit_all_def Let_def)
  with init_segments_Inr [OF l] show ?thesis
    by (intro exI conjI) (auto simp: initial_state_def)
qed

text \<open>
  Claim C1. In a run that reaches its end, the segments are those of the entries that are
  not one-field end markers, in the order of the configuration; each starts at the start
  of its own entry and ends at the start of the next entry, which exists; an end marker
  gives no segment. For the entries \<^verbatim>\<open>0x1000\<close>, \<^verbatim>\<open>0x2000\<close> and the end marker \<^verbatim>\<open>[0x3000]\<close>
  there are exactly two segments, \<^verbatim>\<open>[0x1000, 0x2000)\<close> and \<^verbatim>\<open>[0x2000, 0x3000)\<close>.
\<close>

theorem segment_ranges:
  assumes "main P src cfg repo_path ms verbose fs = Inr st"
  shows "map (\<lambda>seg. (config_index seg, Inr (rom_start seg), Inr (rom_end seg))) (segments st)
       = map (\<lambda>i. (i, descriptor_start (config_segments cfg ! i),
                      descriptor_start (config_segments cfg ! Suc i)))
           (segment_entries (config_segments cfg))
     \<and> (\<forall>i \<in> set (segment_entries (config_segments cfg)). Suc i < length (config_segments cfg))"
proof -
  from main_Inr [OF assms] obtain segs0 where
    a: "segments st = map final_segment segs0"
       "map config_index segs0 = segment_entries (config_segments cfg)"
       "\<forall>seg \<in> set segs0.
           Suc (config_index seg) < length (config_segments cfg) \<and>
           new_segment P (class_of seg) (config_index seg) (config_segments cfg ! config_index seg)
             (config_segments cfg ! Suc (config_index seg)) = Inr seg"
    unfolding loop_inv_def segment_entries_def by auto
  have "map (\<lambda>seg. (config_index seg, Inr (rom_start seg), Inr (rom_end seg))) (map final_segment segs0)
      = map (\<lambda>i. (i, descriptor_start (config_segments cfg ! i),
                      descriptor_start (config_segments cfg ! Suc i))) (map config_index segs0)"
    using a(3) new_segment_Inr(3,4) by (auto simp: o_def)
  moreover have "\<forall>i \<in> set (map config_index segs0). Suc i < length (config_segments cfg)"
    using a(3) by auto
  ultimately show ?thesis by (simp add: a(1,2))
qed

lemmas run_defs = main_def init_segments_def init_segment_def construct_def unique_name_def
  split_segment_def new_segment_def raising_def example_plugins_def example_class_def
  example_config_def no_sources_def initial_state_def gather_c_funcs_def gather_c_variables_def
  read_source_def py_index_def emit_def inject_def store_of_def postsplit_all_def write_ld_def
  write_report_def od_update_def Let_def

theorem segment_ranges_witness:
  "\<exists>st. main example_plugins no_sources (example_config example_segments) ''out'' (ModesStr ''all'') False
            Map.empty = Inr st
     \<and> map (\<lambda>seg. (config_index seg, Inr (rom_start seg), Inr (rom_end seg))) (segments st)
         = [(0, Inr 0x1000 :: error + int, Inr 0x2000 :: error + int), (1, Inr 0x2000, Inr 0x3000)]"
proof -
  obtain st where m: "main example_plugins no_sources (example_config example_segments) ''out''
      (ModesStr ''all'') False Map.empty = Inr st"
    by (simp add: run_defs example_segments_def)
  have r: "map (\<lambda>seg. (config_index seg, Inr (rom_start seg), Inr (rom_end seg))) (segments st)
         = [(0, Inr 0x1000 :: error + int, Inr 0x2000 :: error + int), (1, Inr 0x2000, Inr 0x3000)]"
    using segment_ranges [OF m] by (simp add: segment_entries_def example_config_def example_segments_def)
  show ?thesis by (rule exI [of _ st]) (rule conjI [OF m r])
qed

subsection \<open>Aborted runs, and the order of the calls\<close>

lemma loop_inv_prefix:
  assumes p: "for_each (init_segment P verbose cfg) [0..<i] st0 = Inr s"
  shows "loop_inv P cfg st0 i s"
proof (rule for_each_upt_Inr [where body = "init_segment P verbose cfg" and start = st0, OF _ _ p])
  show "loop_inv P cfg st0 0 st0" by (simp add: loop_inv_def)
  show "\<And>k s s'. k < i \<Longrightarrow> loop_inv P cfg st0 k s \<Longrightarrow>
          init_segment P verbose cfg k s = Inr s' \<Longrightarrow> loop_inv P cfg st0 (Suc k) s'"
    by (rule loop_inv_step)
qed

lemma init_segments_Inl:
  assumes "init_segments P verbose cfg st0 = Inl (e, st)"
  shows "\<exists>i s. i < length cfg \<and> loop_inv P cfg st0 i s \<and> init_segment P verbose cfg i s = Inl (e, st)"
proof -
  from for_each_upt_Inl [OF assms [unfolded init_segments_def]] obtain i s where
    "i < length cfg" "for_each (init_segment P verbose cfg) [0..<i] st0 = Inr s"
    "init_segment P verbose cfg i s = Inl (e, st)"
    by blast
  then show ?thesis using loop_inv_prefix by blast
qed

lemma for_each_Inl:
  "for_each body xs s = Inl e \<Longrightarrow> \<exists>x s'. body x s' = Inl e"
  by (induction xs arbitrary: s) (auto split: sum.splits)

lemma py_index_Inl: "py_index xs i = Inl e \<Longrightarrow> exit_status e = 1"
  by (auto simp: py_index_def split: if_splits)

lemma py_int0_Inl: "py_int0 x = Inl e \<Longrightarrow> exit_status e = 1"
  by (auto simp: py_int0_def Let_def split: option.splits)

lemma py_last_Inl: "py_last xs = Inl e \<Longrightarrow> exit_status e = 1"
  by (auto simp: py_last_def split: if_splits)

lemma re_search_start_Inl: "re_search_start x = Inl e \<Longrightarrow> exit_status e = 1"
  by (auto simp: re_search_start_def split: if_splits)

lemma bind_err_Inl:
  "bind_err r f = Inl e \<Longrightarrow> r = Inl e \<or> (\<exists>x. r = Inr x \<and> f x = Inl e)"
  by (cases r) auto

lemma auto_func_line_Inl: "auto_func_line l s = Inl e \<Longrightarrow> exit_status e = 1"
  unfolding auto_func_line_def Let_def
  by (auto dest!: bind_err_Inl dest: py_index_Inl py_int0_Inl split: if_splits)

lemma manual_func_line_Inl: "manual_func_line l s = Inl e \<Longrightarrow> exit_status e = 1"
  unfolding manual_func_line_def Let_def
  by (auto dest!: bind_err_Inl dest: py_index_Inl py_int0_Inl split: if_splits)

lemma auto_var_line_Inl: "auto_var_line l s = Inl e \<Longrightarrow> exit_status e = 1"
  unfolding auto_var_line_def Let_def
  by (auto dest!: bind_err_Inl dest: py_index_Inl py_int0_Inl py_last_Inl re_search_start_Inl
        split: if_splits)

lemma manual_var_line_Inl: "manual_var_line l s = Inl e \<Longrightarrow> exit_status e = 1"
  unfolding manual_var_line_def Let_def
  by (auto dest!: bind_err_Inl dest: py_index_Inl py_int0_Inl split: if_splits)

lemma read_source_Inl:
  assumes step: "\<And>l s e. body l s = Inl e \<Longrightarrow> exit_status e = 1"
    and run: "read_source body src s = Inl e"
  shows "exit_status e = 1"
proof (cases src)
  case None
  then show ?thesis using run by (simp add: read_source_def)
next
  case (Some ls)
  then have "for_each body ls s = Inl e" using run by (simp add: read_source_def)
  from for_each_Inl [OF this] obtain x s' where "body x s' = Inl e" by blast
  then show ?thesis by (rule step)
qed

lemma gather_c_funcs_Inl:
  assumes "gather_c_funcs fh sa = Inl e"
  shows "exit_status e = 1"
proof -
  from bind_err_Inl [OF assms [unfolded gather_c_funcs_def]]
  show ?thesis
  proof (elim disjE exE conjE)
    assume "read_source auto_func_line fh (Map.empty, {}) = Inl e"
    then show ?thesis by (rule read_source_Inl [rotated]) (rule auto_func_line_Inl)
  next
    fix x assume "read_source manual_func_line sa x = Inl e"
    then show ?thesis by (rule read_source_Inl [rotated]) (rule manual_func_line_Inl)
  qed
qed

lemma gather_c_variables_Inl:
  assumes "gather_c_variables vh us = Inl e"
  shows "exit_status e = 1"
proof -
  from bind_err_Inl [OF assms [unfolded gather_c_variables_def]]
  show ?thesis
  proof (elim disjE exE conjE)
    assume "read_source auto_var_line vh Map.empty = Inl e"
    then show ?thesis by (rule read_source_Inl [rotated]) (rule auto_var_line_Inl)
  next
    fix x assume "read_source manual_var_line us x = Inl e"
    then show ?thesis by (rule read_source_Inl [rotated]) (rule manual_var_line_Inl)
  qed
qed

lemma main_Inl:
  assumes "main P src cfg repo_path ms verbose fs = Inl (e, st)"
  shows "(st = initial_state fs \<and> exit_status e = 1) \<or>
         (\<exists>st0 :: state. segments st0 = [] \<and> trace st0 = [] \<and>
            init_segments P verbose (config_segments cfg) st0 = Inl (e, st))"
proof (cases "gather_c_funcs (src_functions_h src) (src_symbol_addrs src)")
  case (Inl a)
  then show ?thesis using assms gather_c_funcs_Inl [OF Inl] by (simp add: main_def)
next
  case f: (Inr fl)
  show ?thesis
  proof (cases "gather_c_variables (src_variables_h src) (src_undefined_syms src)")
    case (Inl a)
    then show ?thesis using assms f gather_c_variables_Inl [OF Inl]
      by (simp add: main_def split: prod.splits)
  next
    case (Inr vars)
    let ?st0 = "(initial_state fs)\<lparr>c_funcs := fst fl, c_func_labels_to_add := snd fl,
      c_vars := vars\<rparr>"
    have "init_segments P verbose (config_segments cfg) ?st0 = Inl (e, st)"
      using assms f Inr by (simp add: main_def split: prod.splits sum.splits)
    moreover have "segments ?st0 = []" "trace ?st0 = []" by (simp_all add: initial_state_def)
    ultimately show ?thesis by blast
  qed
qed

lemma loop_inv_no_postsplit:
  "loop_inv P cfg st0 k s \<Longrightarrow> trace st0 = [] \<Longrightarrow> \<not> list_ex is_postsplit (trace s)"
  unfolding loop_inv_def by auto

lemma loop_inv_calls:
  assumes "loop_inv P cfg st0 k s" "trace st0 = []" "segments st0 = []"
  shows "split_calls (trace s) = segments s"
    "map config_index (segments s) = filter (\<lambda>i. py_len (cfg ! i) \<noteq> 1) [0..<k]"
proof -
  from assms(1) obtain segs0 where
    a: "segments s = segments st0 @ map final_segment segs0"
       "split_calls (trace s) = split_calls (trace st0) @ map final_segment segs0"
       "map config_index segs0 = filter (\<lambda>i. py_len (cfg ! i) \<noteq> 1) [0..<k]"
    unfolding loop_inv_def by blast
  show "split_calls (trace s) = segments s" using a(1,2) assms(2,3) by simp
  have "map config_index (map final_segment segs0) = map config_index segs0"
    by (simp add: o_def)
  then show "map config_index (segments s) = filter (\<lambda>i. py_len (cfg ! i) \<noteq> 1) [0..<k]"
    using a(1,3) assms(3) by simp
qed

text \<open>
  Claim C8. In a run that reaches its end the calls are, first, those of the first pass,
  among them no \<^verbatim>\<open>postsplit\<close> and one \<^verbatim>\<open>split\<close> for each constructed segment in the order
  of the configuration; then one \<^verbatim>\<open>postsplit\<close> for each segment in the same order, each
  with the complete list of segments. In a run that aborts there is no \<^verbatim>\<open>postsplit\<close>.
\<close>

theorem split_pass_before_postsplit:
  "(main P src cfg repo_path ms verbose fs = Inr st \<longrightarrow>
      (\<exists>first. trace st = first @ map (\<lambda>seg. Postsplit seg (segments st)) (segments st)
          \<and> \<not> list_ex is_postsplit first
          \<and> split_calls first = segments st
          \<and> map config_index (segments st) = segment_entries (config_segments cfg)))
   \<and> (main P src cfg repo_path ms verbose fs = Inl (e, st) \<longrightarrow> \<not> list_ex is_postsplit (trace st))"
proof (intro conjI impI)
  assume m: "main P src cfg repo_path ms verbose fs = Inr st"
  from main_Inr [OF m] obtain st0 st1 :: state where
    z: "segments st0 = []" "trace st0 = []" and
    l: "loop_inv P (config_segments cfg) st0 (length (config_segments cfg)) st1" and
    s: "segments st = segments st1"
       "trace st = trace st1 @ map (\<lambda>seg. Postsplit seg (segments st1)) (segments st1)"
    by blast
  note c = loop_inv_calls [OF l z(2,1)] loop_inv_no_postsplit [OF l z(2)]
  show "\<exists>first. trace st = first @ map (\<lambda>seg. Postsplit seg (segments st)) (segments st)
          \<and> \<not> list_ex is_postsplit first
          \<and> split_calls first = segments st
          \<and> map config_index (segments st) = segment_entries (config_segments cfg)"
    using s c by (intro exI [of _ "trace st1"]) (simp add: segment_entries_def)
next
  assume m: "main P src cfg repo_path ms verbose fs = Inl (e, st)"
  from main_Inl [OF m] show "\<not> list_ex is_postsplit (trace st)"
  proof (elim disjE conjE exE)
    assume "st = initial_state fs"
    then show ?thesis by (simp add: initial_state_def)
  next
    fix st0 :: state
    assume z: "segments st0 = []" "trace st0 = []"
      and l: "init_segments P verbose (config_segments cfg) st0 = Inl (e, st)"
    from init_segments_Inl [OF l] obtain i s where
      i: "loop_inv P (config_segments cfg) st0 i s"
      and b: "init_segment P verbose (config_segments cfg) i s = Inl (e, st)"
      by blast
    show ?thesis using init_segment_Inl(3) [OF b] loop_inv_no_postsplit [OF i z(2)] by simp
  qed
qed

theorem split_pass_before_postsplit_witness:
  "(\<exists>st first. main example_plugins no_sources (example_config example_segments) ''out''
             (ModesStr ''all'') False Map.empty = Inr st
      \<and> trace st = first @ map (\<lambda>seg. Postsplit seg (segments st)) (segments st)
      \<and> \<not> list_ex is_postsplit first
      \<and> split_calls first = segments st
      \<and> map config_index (segments st) = [0, 1])
   \<and> (\<exists>e st. main example_plugins no_sources (example_config duplicate_segments) ''out''
             (ModesStr ''all'') False Map.empty = Inl (e, st)
      \<and> \<not> list_ex is_postsplit (trace st))"
proof (rule conjI)
  obtain st where m: "main example_plugins no_sources (example_config example_segments) ''out''
      (ModesStr ''all'') False Map.empty = Inr st"
    by (simp add: run_defs example_segments_def)
  have e: "segment_entries (config_segments (example_config example_segments)) = [0, 1]"
    by (simp add: segment_entries_def example_config_def example_segments_def)
  from split_pass_before_postsplit [THEN conjunct1, rule_format, OF m, unfolded e]
  obtain first where
    "trace st = first @ map (\<lambda>seg. Postsplit seg (segments st)) (segments st)
      \<and> \<not> list_ex is_postsplit first
      \<and> split_calls first = segments st
      \<and> map config_index (segments st) = [0, 1]" ..
  then show "\<exists>st first. main example_plugins no_sources (example_config example_segments) ''out''
             (ModesStr ''all'') False Map.empty = Inr st
      \<and> trace st = first @ map (\<lambda>seg. Postsplit seg (segments st)) (segments st)
      \<and> \<not> list_ex is_postsplit first
      \<and> split_calls first = segments st
      \<and> map config_index (segments st) = [0, 1]"
    using m by (intro exI [of _ st] exI [of _ first] conjI) simp_all
next
  obtain e st where m: "main example_plugins no_sources (example_config duplicate_segments) ''out''
      (ModesStr ''all'') False Map.empty = Inl (e, st)"
    by (simp add: run_defs duplicate_segments_def)
  from split_pass_before_postsplit [THEN conjunct2, rule_format, OF m]
  have "\<not> list_ex is_postsplit (trace st)" .
  then show "\<exists>e st. main example_plugins no_sources (example_config duplicate_segments) ''out''
             (ModesStr ''all'') False Map.empty = Inl (e, st)
      \<and> \<not> list_ex is_postsplit (trace st)"
    using m by (intro exI [of _ e] exI [of _ st] conjI)
qed

lemma step_ok_name:
  assumes "step_ok P cfg k st st' seg0"
    and "parse_segment_type P (cfg ! k) = Some t" "import_class P t = Some c"
    and "parse_segment_name P (cfg ! k) c = Some n"
  shows "class_of seg0 = c" "seg_name seg0 = n"
proof -
  from assms(1) obtain ty where
    ns: "new_segment P (class_of seg0) k (cfg ! k) (cfg ! Suc k) = Inr seg0" and
    ty: "parse_segment_type P (cfg ! k) = Some ty" "import_class P ty = Some (class_of seg0)"
    unfolding step_ok_def by blast
  show c: "class_of seg0 = c" using ty assms(2,3) by simp
  show "seg_name seg0 = n" using new_segment_Inr(5) [OF ns] assms(4) c by simp
qed

lemma seen_after:
  assumes run: "for_each (init_segment P verbose cfg) [0..<k] st0 = Inr s"
    and i: "i < k" "py_len (cfg ! i) \<noteq> 1"
    and c: "parse_segment_type P (cfg ! i) = Some t" "import_class P t = Some c"
      "require_unique_name c" "parse_segment_name P (cfg ! i) c = Some n"
  shows "n \<in> seen_segment_names s"
proof -
  have "i < k \<longrightarrow> n \<in> seen_segment_names s"
  proof (rule for_each_upt_Inr [where body = "init_segment P verbose cfg" and start = st0
        and I = "\<lambda>k s. i < k \<longrightarrow> n \<in> seen_segment_names s", OF _ _ run])
    show "i < 0 \<longrightarrow> n \<in> seen_segment_names st0" by simp
    fix m s s'
    assume inv: "i < m \<longrightarrow> n \<in> seen_segment_names s"
      and b: "init_segment P verbose cfg m s = Inr s'"
    from init_segment_Inr [OF b] show "i < Suc m \<longrightarrow> n \<in> seen_segment_names s'"
    proof (elim disjE conjE exE)
      assume "py_len (cfg ! m) = 1" "s' = s"
      then show ?thesis using inv i(2) by (auto simp: less_Suc_eq)
    next
      fix seg0
      assume ok: "step_ok P cfg m s s' seg0"
      have mono: "seen_segment_names s \<subseteq> seen_segment_names s'"
        using ok unfolding step_ok_def by blast
      show ?thesis
      proof (cases "i = m")
        case True
        have "class_of seg0 = c" "seg_name seg0 = n"
          using step_ok_name [OF ok] c True by simp_all
        then show ?thesis using ok c(3) unfolding step_ok_def by blast
      next
        case False
        then show ?thesis using inv mono by (auto simp: less_Suc_eq)
      qed
    qed
  qed
  then show ?thesis using i(1) by simp
qed

lemma loop_inv_split_index:
  assumes "loop_inv P cfg st0 k s" "trace st0 = []"
  shows "\<forall>seg \<in> set (split_calls (trace s)). config_index seg < k"
proof -
  from assms obtain segs0 where
    a: "split_calls (trace s) = map final_segment segs0"
       "map config_index segs0 = filter (\<lambda>i. py_len (cfg ! i) \<noteq> 1) [0..<k]"
    unfolding loop_inv_def by auto
  have "set (map config_index segs0) \<subseteq> {0..<k}" unfolding a(2) by auto
  then show ?thesis unfolding a(1) by auto
qed

lemma duplicate_in_loop:
  assumes ij: "i < j" "j < length cfg"
    and ni: "py_len (cfg ! i) \<noteq> 1" and nj: "py_len (cfg ! j) \<noteq> 1"
    and ci: "parse_segment_type P (cfg ! i) = Some ti" "import_class P ti = Some ci"
      "require_unique_name ci" "parse_segment_name P (cfg ! i) ci = Some n"
    and cj: "parse_segment_type P (cfg ! j) = Some tj" "import_class P tj = Some cj"
      "require_unique_name cj" "parse_segment_name P (cfg ! j) cj = Some n"
    and z: "trace st0 = []"
  shows "\<exists>e st. init_segments P verbose cfg st0 = Inl (e, st) \<and> exit_status e = 1 \<and>
           (\<forall>seg \<in> set (split_calls (trace st)). config_index seg < j)"
proof (cases "for_each (init_segment P verbose cfg) [0..<j] st0")
  case (Inl x)
  obtain e st where x: "x = (e, st)" by (cases x)
  have whole: "init_segments P verbose cfg st0 = Inl (e, st)"
    unfolding init_segments_def for_each_upt_split [OF ij(2)] using Inl x by simp
  from for_each_upt_Inl [OF Inl [unfolded x]] obtain k s where
    k: "k < j" "for_each (init_segment P verbose cfg) [0..<k] st0 = Inr s"
       "init_segment P verbose cfg k s = Inl (e, st)"
    by blast
  have "\<forall>seg \<in> set (split_calls (trace s)). config_index seg < k"
    using loop_inv_split_index [OF loop_inv_prefix [OF k(2)] z] .
  then have "\<forall>seg \<in> set (split_calls (trace st)). config_index seg < j"
    using init_segment_Inl(2) [OF k(3)] k(1) by auto
  then show ?thesis using whole init_segment_Inl(1) [OF k(3)] by blast
next
  case (Inr sj)
  have seen: "n \<in> seen_segment_names sj"
    using seen_after [OF Inr ij(1) ni ci] .
  have idx: "\<forall>seg \<in> set (split_calls (trace sj)). config_index seg < j"
    using loop_inv_split_index [OF loop_inv_prefix [OF Inr] z] .
  show ?thesis
  proof (cases "init_segment P verbose cfg j sj")
    case (Inl x)
    obtain e st where x: "x = (e, st)" by (cases x)
    have whole: "init_segments P verbose cfg st0 = Inl (e, st)"
      unfolding init_segments_def for_each_upt_split [OF ij(2)] using Inl Inr x by simp
    show ?thesis
      using whole init_segment_Inl(1,2) [OF Inl [unfolded x]] idx by auto
  next
    case r: (Inr s')
    from init_segment_Inr [OF r] nj obtain seg0 where ok: "step_ok P cfg j sj s' seg0"
      by blast
    have "class_of seg0 = cj" "seg_name seg0 = n"
      using step_ok_name [OF ok cj(1,2,4)] by simp_all
    then have "n \<notin> seen_segment_names sj"
      using ok cj(3) unfolding step_ok_def by blast
    with seen show ?thesis by simp
  qed
qed

text \<open>
  Claim C5. When two entries of kinds that require unique names have the same name, the
  run ends in an exception or in \<^verbatim>\<open>exit(1)\<close>, with exit status 1, and \<^verbatim>\<open>split\<close> is never
  called on the segment of the second entry: every segment split comes from an earlier
  entry.
\<close>

theorem duplicate_name_aborts:
  assumes "i < j" "j < length (config_segments cfg)"
    and "py_len (config_segments cfg ! i) \<noteq> 1" "py_len (config_segments cfg ! j) \<noteq> 1"
    and "parse_segment_type P (config_segments cfg ! i) = Some ti" "import_class P ti = Some ci"
      "require_unique_name ci" "parse_segment_name P (config_segments cfg ! i) ci = Some n"
    and "parse_segment_type P (config_segments cfg ! j) = Some tj" "import_class P tj = Some cj"
      "require_unique_name cj" "parse_segment_name P (config_segments cfg ! j) cj = Some n"
  shows "\<exists>e st. main P src cfg repo_path ms verbose fs = Inl (e, st) \<and> exit_status e = 1 \<and>
           exit_status e \<noteq> 0 \<and>
           (\<forall>seg \<in> set (split_calls (trace st)). config_index seg < j)"
proof (cases "gather_c_funcs (src_functions_h src) (src_symbol_addrs src)")
  case (Inl a)
  then have "main P src cfg repo_path ms verbose fs = Inl (a, initial_state fs)"
    by (simp add: main_def)
  moreover have "trace (initial_state fs) = []" by (simp add: initial_state_def)
  ultimately show ?thesis using gather_c_funcs_Inl [OF Inl] by auto
next
  case f: (Inr fl)
  show ?thesis
  proof (cases "gather_c_variables (src_variables_h src) (src_undefined_syms src)")
    case (Inl a)
    then have "main P src cfg repo_path ms verbose fs = Inl (a, initial_state fs)"
      using f by (simp add: main_def split: prod.splits)
    moreover have "trace (initial_state fs) = []" by (simp add: initial_state_def)
    ultimately show ?thesis using gather_c_variables_Inl [OF Inl] by auto
  next
    case (Inr vars)
    let ?st0 = "(initial_state fs)\<lparr>c_funcs := fst fl, c_func_labels_to_add := snd fl,
      c_vars := vars\<rparr>"
    have z: "trace ?st0 = []" by (simp add: initial_state_def)
    from duplicate_in_loop [OF assms z, of verbose] obtain e st where
      l: "init_segments P verbose (config_segments cfg) ?st0 = Inl (e, st)" and
      p: "exit_status e = 1" "\<forall>seg \<in> set (split_calls (trace st)). config_index seg < j"
      by blast
    have "main P src cfg repo_path ms verbose fs = Inl (e, st)"
      using f Inr l by (cases fl) (simp add: main_def)
    then show ?thesis using p by auto
  qed
qed

theorem duplicate_name_aborts_witness:
  "\<exists>e st. main example_plugins no_sources (example_config duplicate_segments) ''out''
             (ModesStr ''all'') False Map.empty = Inl (e, st)
     \<and> exit_status e = 1 \<and> exit_status e \<noteq> 0
     \<and> (\<forall>seg \<in> set (split_calls (trace st)). config_index seg < 1)"
proof (rule duplicate_name_aborts [where i = 0 and j = 1 and ti = "''bin''" and tj = "''bin''" and n = "''main''"
      and ci = "\<lparr>is_N64SegCode = False, require_unique_name = True\<rparr>"
      and cj = "\<lparr>is_N64SegCode = False, require_unique_name = True\<rparr>"])
  show "(0::nat) < 1" by simp
  show "1 < length (config_segments (example_config duplicate_segments))"
    by (simp add: example_config_def duplicate_segments_def)
  show "py_len (config_segments (example_config duplicate_segments) ! 0) \<noteq> 1"
    by (simp add: example_config_def duplicate_segments_def)
  show "py_len (config_segments (example_config duplicate_segments) ! 1) \<noteq> 1"
    by (simp add: example_config_def duplicate_segments_def)
  show "parse_segment_type example_plugins (config_segments (example_config duplicate_segments) ! 0)
      = Some ''bin''"
    by (simp add: example_config_def duplicate_segments_def example_plugins_def)
  show "parse_segment_type example_plugins (config_segments (example_config duplicate_segments) ! 1)
      = Some ''bin''"
    by (simp add: example_config_def duplicate_segments_def example_plugins_def)
  show "import_class example_plugins ''bin'' = Some \<lparr>is_N64SegCode = False, require_unique_name = True\<rparr>"
    by (simp add: example_plugins_def example_class_def)
  then show "import_class example_plugins ''bin'' = Some \<lparr>is_N64SegCode = False, require_unique_name = True\<rparr>" .
  show "require_unique_name \<lparr>is_N64SegCode = False, require_unique_name = True\<rparr>" by simp
  then show "require_unique_name \<lparr>is_N64SegCode = False, require_unique_name = True\<rparr>" .
  show "parse_segment_name example_plugins (config_segments (example_config duplicate_segments) ! 0)
      \<lparr>is_N64SegCode = False, require_unique_name = True\<rparr> = Some ''main''"
    by (simp add: example_config_def duplicate_segments_def example_plugins_def)
  show "parse_segment_name example_plugins (config_segments (example_config duplicate_segments) ! 1)
      \<lparr>is_N64SegCode = False, require_unique_name = True\<rparr> = Some ''main''"
    by (simp add: example_config_def duplicate_segments_def example_plugins_def)
qed

lemma final_segment_attrs:
  assumes "new_segment P cls i d nd = Inr seg0"
  shows "is_N64SegCode (class_of seg0) \<Longrightarrow>
           all_functions (final_segment seg0) = Some Defined_funcs \<and>
           c_functions (final_segment seg0) = Some C_funcs \<and>
           c_variables (final_segment seg0) = Some C_vars \<and>
           c_labels_to_add (final_segment seg0) = Some C_func_labels_to_add"
    and "\<not> is_N64SegCode (class_of seg0) \<Longrightarrow>
           all_functions (final_segment seg0) = None \<and>
           c_functions (final_segment seg0) = None \<and>
           c_variables (final_segment seg0) = None \<and>
           c_labels_to_add (final_segment seg0) = None"
  using new_segment_Inr(6-9) [OF assms] by (simp_all add: final_segment_def inject_def)

text \<open>
  Claim C10. One pass through the loop body either skips an end marker, or appends one
  segment. When the class of the segment is \<^verbatim>\<open>N64SegCode\<close>, its four attributes refer to the
  driver's objects and its labels are added to the defined and the required functions;
  for any other class the attributes stay unset and both sets stay as they are, as they
  do when the pass ends in an exception.
\<close>

theorem shared_state_only_for_code:
  "(init_segment P verbose cfg i st = Inr st' \<longrightarrow>
      (py_len (cfg ! i) = 1 \<and> st' = st) \<or>
      (\<exists>seg ty. segments st' = segments st @ [seg] \<and> config_index seg = i \<and>
          parse_segment_type P (cfg ! i) = Some ty \<and> import_class P ty = Some (class_of seg) \<and>
          (if is_N64SegCode (class_of seg)
           then all_functions seg = Some Defined_funcs \<and> c_functions seg = Some C_funcs \<and>
                c_variables seg = Some C_vars \<and> c_labels_to_add seg = Some C_func_labels_to_add \<and>
                defined_funcs st' = defined_funcs st \<union> fst (split P seg (store_of st)) \<and>
                undefined_funcs st' = undefined_funcs st \<union> snd (split P seg (store_of st))
           else all_functions seg = None \<and> c_functions seg = None \<and>
                c_variables seg = None \<and> c_labels_to_add seg = None \<and>
                defined_funcs st' = defined_funcs st \<and>
                undefined_funcs st' = undefined_funcs st)))
   \<and> (init_segment P verbose cfg i st = Inl (e, st') \<longrightarrow>
        defined_funcs st' = defined_funcs st \<and> undefined_funcs st' = undefined_funcs st)"
proof (rule conjI; rule impI)
  assume b: "init_segment P verbose cfg i st = Inr st'"
  from init_segment_Inr [OF b]
  show "(py_len (cfg ! i) = 1 \<and> st' = st) \<or>
      (\<exists>seg ty. segments st' = segments st @ [seg] \<and> config_index seg = i \<and>
          parse_segment_type P (cfg ! i) = Some ty \<and> import_class P ty = Some (class_of seg) \<and>
          (if is_N64SegCode (class_of seg)
           then all_functions seg = Some Defined_funcs \<and> c_functions seg = Some C_funcs \<and>
                c_variables seg = Some C_vars \<and> c_labels_to_add seg = Some C_func_labels_to_add \<and>
                defined_funcs st' = defined_funcs st \<union> fst (split P seg (store_of st)) \<and>
                undefined_funcs st' = undefined_funcs st \<union> snd (split P seg (store_of st))
           else all_functions seg = None \<and> c_functions seg = None \<and>
                c_variables seg = None \<and> c_labels_to_add seg = None \<and>
                defined_funcs st' = defined_funcs st \<and>
                undefined_funcs st' = undefined_funcs st))"
  proof (elim disjE conjE exE)
    assume "py_len (cfg ! i) = 1" "st' = st"
    then show ?thesis by simp
  next
    fix seg0
    assume ok: "step_ok P cfg i st st' seg0"
    from ok obtain ty where
      ns: "new_segment P (class_of seg0) i (cfg ! i) (cfg ! Suc i) = Inr seg0" and
      ty: "parse_segment_type P (cfg ! i) = Some ty" "import_class P ty = Some (class_of seg0)"
      unfolding step_ok_def by blast
    have sg: "segments st' = segments st @ [final_segment seg0]"
      and d: "defined_funcs st' =
        (if is_N64SegCode (class_of seg0)
         then defined_funcs st \<union> fst (split P (final_segment seg0) (store_of st))
         else defined_funcs st)"
      and u: "undefined_funcs st' =
        (if is_N64SegCode (class_of seg0)
         then undefined_funcs st \<union> snd (split P (final_segment seg0) (store_of st))
         else undefined_funcs st)"
      using ok unfolding step_ok_def by blast+
    have ci: "config_index (final_segment seg0) = i" using new_segment_Inr(1) [OF ns] by simp
    have "segments st' = segments st @ [final_segment seg0] \<and> config_index (final_segment seg0) = i \<and>
          parse_segment_type P (cfg ! i) = Some ty \<and>
          import_class P ty = Some (class_of (final_segment seg0)) \<and>
          (if is_N64SegCode (class_of (final_segment seg0))
           then all_functions (final_segment seg0) = Some Defined_funcs \<and>
                c_functions (final_segment seg0) = Some C_funcs \<and>
                c_variables (final_segment seg0) = Some C_vars \<and>
                c_labels_to_add (final_segment seg0) = Some C_func_labels_to_add \<and>
                defined_funcs st' = defined_funcs st \<union> fst (split P (final_segment seg0) (store_of st)) \<and>
                undefined_funcs st' = undefined_funcs st \<union> snd (split P (final_segment seg0) (store_of st))
           else all_functions (final_segment seg0) = None \<and> c_functions (final_segment seg0) = None \<and>
                c_variables (final_segment seg0) = None \<and> c_labels_to_add (final_segment seg0) = None \<and>
                defined_funcs st' = defined_funcs st \<and>
                undefined_funcs st' = undefined_funcs st)"
      using sg ci ty d u final_segment_attrs [OF ns] by simp
    then show ?thesis by blast
  qed
next
  assume "init_segment P verbose cfg i st = Inl (e, st')"
  from init_segment_Inl(4,5) [OF this]
  show "defined_funcs st' = defined_funcs st \<and> undefined_funcs st' = undefined_funcs st" by simp
qed

lemma mixed_classes:
  "py_len (mixed_segments ! 0) \<noteq> 1" "py_len (mixed_segments ! 1) \<noteq> 1"
  "parse_segment_type example_plugins (mixed_segments ! 0) = Some ty \<Longrightarrow>
     import_class example_plugins ty = Some c \<Longrightarrow> \<not> is_N64SegCode c"
  "parse_segment_type example_plugins (mixed_segments ! 1) = Some ty \<Longrightarrow>
     import_class example_plugins ty = Some c \<Longrightarrow> is_N64SegCode c"
  by (auto simp: mixed_segments_def example_plugins_def example_class_def)

theorem shared_state_only_for_code_witness:
  "(\<exists>st'. init_segment example_plugins False mixed_segments 0 (initial_state Map.empty) = Inr st'
        \<and> map all_functions (segments st') = [None]
        \<and> defined_funcs st' = {} \<and> undefined_funcs st' = {})
   \<and> (\<exists>st'. init_segment example_plugins False mixed_segments 1 (initial_state Map.empty) = Inr st'
        \<and> map all_functions (segments st') = [Some Defined_funcs]
        \<and> defined_funcs st' = {''main''} \<and> undefined_funcs st' = {''func_80001000''})
   \<and> (\<exists>e st'. init_segment example_plugins False mixed_segments 1
          ((initial_state Map.empty)\<lparr>seen_segment_names := {''main''}\<rparr>) = Inl (e, st')
        \<and> defined_funcs st' = {} \<and> undefined_funcs st' = {})"
proof (intro conjI)
  obtain st' where b: "init_segment example_plugins False mixed_segments 0 (initial_state Map.empty) = Inr st'"
    by (simp add: run_defs mixed_segments_def)
  from shared_state_only_for_code [THEN conjunct1, rule_format, OF b] mixed_classes(1)
  obtain seg ty where
    s: "segments st' = segments (initial_state Map.empty) @ [seg]"
       "parse_segment_type example_plugins (mixed_segments ! 0) = Some ty"
       "import_class example_plugins ty = Some (class_of seg)"
    and r: "if is_N64SegCode (class_of seg)
           then all_functions seg = Some Defined_funcs \<and> c_functions seg = Some C_funcs \<and>
                c_variables seg = Some C_vars \<and> c_labels_to_add seg = Some C_func_labels_to_add \<and>
                defined_funcs st' = defined_funcs (initial_state Map.empty)
                   \<union> fst (split example_plugins seg (store_of (initial_state Map.empty))) \<and>
                undefined_funcs st' = undefined_funcs (initial_state Map.empty)
                   \<union> snd (split example_plugins seg (store_of (initial_state Map.empty)))
           else all_functions seg = None \<and> c_functions seg = None \<and>
                c_variables seg = None \<and> c_labels_to_add seg = None \<and>
                defined_funcs st' = defined_funcs (initial_state Map.empty) \<and>
                undefined_funcs st' = undefined_funcs (initial_state Map.empty)"
    by blast
  have "\<not> is_N64SegCode (class_of seg)" using mixed_classes(3) [OF s(2,3)] .
  then have "map all_functions (segments st') = [None]
        \<and> defined_funcs st' = {} \<and> undefined_funcs st' = {}"
    using r s(1) by (simp add: initial_state_def)
  then show "\<exists>st'. init_segment example_plugins False mixed_segments 0 (initial_state Map.empty) = Inr st'
        \<and> map all_functions (segments st') = [None]
        \<and> defined_funcs st' = {} \<and> undefined_funcs st' = {}"
    using b by (intro exI [of _ st']) simp
next
  obtain st' where b: "init_segment example_plugins False mixed_segments 1 (initial_state Map.empty) = Inr st'"
    by (simp add: run_defs mixed_segments_def)
  have n: "seg_name seg = ''main''"
    if "segments st' = segments (initial_state Map.empty) @ [seg]" for seg
    using that b by (auto simp: run_defs mixed_segments_def)
  from shared_state_only_for_code [THEN conjunct1, rule_format, OF b] mixed_classes(2)
  obtain seg ty where
    s: "segments st' = segments (initial_state Map.empty) @ [seg]"
       "parse_segment_type example_plugins (mixed_segments ! 1) = Some ty"
       "import_class example_plugins ty = Some (class_of seg)"
    and r: "if is_N64SegCode (class_of seg)
           then all_functions seg = Some Defined_funcs \<and> c_functions seg = Some C_funcs \<and>
                c_variables seg = Some C_vars \<and> c_labels_to_add seg = Some C_func_labels_to_add \<and>
                defined_funcs st' = defined_funcs (initial_state Map.empty)
                   \<union> fst (split example_plugins seg (store_of (initial_state Map.empty))) \<and>
                undefined_funcs st' = undefined_funcs (initial_state Map.empty)
                   \<union> snd (split example_plugins seg (store_of (initial_state Map.empty)))
           else all_functions seg = None \<and> c_functions seg = None \<and>
                c_variables seg = None \<and> c_labels_to_add seg = None \<and>
                defined_funcs st' = defined_funcs (initial_state Map.empty) \<and>
                undefined_funcs st' = undefined_funcs (initial_state Map.empty)"
    by blast
  have "is_N64SegCode (class_of seg)" using mixed_classes(4) [OF s(2,3)] .
  then have "map all_functions (segments st') = [Some Defined_funcs]
        \<and> defined_funcs st' = {''main''} \<and> undefined_funcs st' = {''func_80001000''}"
    using r s(1) n [OF s(1)] by (simp add: initial_state_def example_plugins_def)
  then show "\<exists>st'. init_segment example_plugins False mixed_segments 1 (initial_state Map.empty) = Inr st'
        \<and> map all_functions (segments st') = [Some Defined_funcs]
        \<and> defined_funcs st' = {''main''} \<and> undefined_funcs st' = {''func_80001000''}"
    using b by (intro exI [of _ st']) simp
next
  obtain e st' where b: "init_segment example_plugins False mixed_segments 1
          ((initial_state Map.empty)\<lparr>seen_segment_names := {''main''}\<rparr>) = Inl (e, st')"
    by (simp add: run_defs mixed_segments_def)
  from shared_state_only_for_code [THEN conjunct2, rule_format, OF b]
  have "defined_funcs st' = {} \<and> undefined_funcs st' = {}"
    by (simp add: initial_state_def)
  then show "\<exists>e st'. init_segment example_plugins False mixed_segments 1
          ((initial_state Map.empty)\<lparr>seen_segment_names := {''main''}\<rparr>) = Inl (e, st')
        \<and> defined_funcs st' = {} \<and> undefined_funcs st' = {}"
    using b by (intro exI [of _ e] exI [of _ st']) simp
qed

end
